theory Spec2Isabelle
  imports Complex_Main "HOL-Library.Char_ord" "HOL-Library.List_Lexorder"
begin

section \<open>The quote page: values, strings and page state\<close>

text \<open>
  The repository holds several revisions of one browser script. Two of them carry the
  synchronisation and import logic: \<^verbatim>\<open>src/dom-manipulation/script.js\<close> (lines 1 to 208)
  and the longer revision \<^verbatim>\<open>src/unnamed/part_002\<close>. Both are embedded here. A
  definition keeps the name of the source function; where the two revisions define a
  function of the same name differently, the one of \<^verbatim>\<open>part_002\<close> carries the suffix
  \<open>2\<close>.

  What belongs to the browser and not to the repository is a parameter of the model:
  the outcome of \<^verbatim>\<open>fetch\<close> and of \<^verbatim>\<open>JSON.parse\<close>, the number that
  \<^verbatim>\<open>Math.random()\<close> returns and the floating-point multiplication. A JSON text is represented by the value it denotes, so
  \<^verbatim>\<open>JSON.parse(JSON.stringify(v))\<close> is \<open>v\<close>.
\<close>

subsection \<open>Strings\<close>

text \<open>
  A JavaScript string is a sequence of UTF-16 code units. The model covers the code units
  below 256 (Latin-1), one \<^typ>\<open>char\<close> each. On that range \<^verbatim>\<open>trim\<close> removes TAB, LF,
  VT, FF, CR, SPACE and NBSP from both ends, and \<^verbatim>\<open>toLowerCase\<close> maps A to Z and the
  letters U+00C0 to U+00DE (but not the multiplication sign U+00D7) to the code unit 32
  above.
\<close>

definition isWhiteSpace :: "char \<Rightarrow> bool" where
  "isWhiteSpace c =
     (c \<in> set [CHR 0x09, CHR 0x0A, CHR 0x0B, CHR 0x0C, CHR 0x0D, CHR 0x20, CHR 0xA0])"

definition trim :: "string \<Rightarrow> string" where
  "trim s = rev (dropWhile isWhiteSpace (rev (dropWhile isWhiteSpace s)))"

definition lowerChar :: "char \<Rightarrow> char" where
  "lowerChar c =
     (let n = (of_char c :: nat)
      in if (65 \<le> n \<and> n \<le> 90) \<or> (192 \<le> n \<and> n \<le> 222 \<and> n \<noteq> 215)
         then char_of (n + 32) else c)"

definition toLowerCase :: "string \<Rightarrow> string" where
  "toLowerCase s = map lowerChar s"

subsection \<open>JSON values and the JavaScript operations on them\<close>

text \<open>
  The values the script handles come out of \<^verbatim>\<open>JSON.parse\<close> (the stored quotes, an
  imported file, the server's answer) or are object literals of the script. Numbers are
  represented by their rational value. \<^verbatim>\<open>undefined\<close> is not a JSON value: a value that
  may be \<^verbatim>\<open>undefined\<close> has type \<open>json option\<close>, with \<open>None\<close> for \<^verbatim>\<open>undefined\<close>; and an
  object property whose value is \<^verbatim>\<open>undefined\<close> is represented as an absent property
  (reading it gives \<^verbatim>\<open>undefined\<close> either way, and \<^verbatim>\<open>JSON.stringify\<close> leaves it out).
\<close>

datatype json =
    JNull
  | JBool bool
  | JNum rat
  | JStr string
  | JArr "json list"
  | JObj "(string \<times> json) list"

type_synonym jsval = "json option"

datatype error = TypeError | SyntaxError | InvalidFileFormat

text \<open>
  \<^verbatim>\<open>v.k\<close> for the property names the script reads (\<^verbatim>\<open>text\<close>, \<^verbatim>\<open>category\<close>,
  \<^verbatim>\<open>title\<close>): reading a property of \<^verbatim>\<open>null\<close> throws a TypeError, an object gives the
  property or \<^verbatim>\<open>undefined\<close>, every other value gives \<^verbatim>\<open>undefined\<close>.
\<close>

fun getProp :: "json \<Rightarrow> string \<Rightarrow> error + jsval" where
  "getProp JNull k = Inl TypeError"
| "getProp (JObj ps) k = Inr (map_of ps k)"
| "getProp (JBool b) k = Inr None"
| "getProp (JNum n) k = Inr None"
| "getProp (JStr s) k = Inr None"
| "getProp (JArr xs) k = Inr None"

text \<open>
  \<^verbatim>\<open>a === b\<close>. Arrays and objects are compared by reference; the two sides of every
  comparison in the script come from different places of parsed JSON, so they are never
  the same reference.
\<close>

fun strict_eq :: "jsval \<Rightarrow> jsval \<Rightarrow> bool" where
  "strict_eq None None = True"
| "strict_eq (Some JNull) (Some JNull) = True"
| "strict_eq (Some (JBool a)) (Some (JBool b)) = (a = b)"
| "strict_eq (Some (JNum a)) (Some (JNum b)) = (a = b)"
| "strict_eq (Some (JStr a)) (Some (JStr b)) = (a = b)"
| "strict_eq a b = False"

text \<open>The truth value of \<^verbatim>\<open>v\<close> in a condition.\<close>

fun truthy :: "jsval \<Rightarrow> bool" where
  "truthy None = False"
| "truthy (Some JNull) = False"
| "truthy (Some (JBool b)) = b"
| "truthy (Some (JNum n)) = (n \<noteq> 0)"
| "truthy (Some (JStr s)) = (s \<noteq> [])"
| "truthy (Some (JArr xs)) = True"
| "truthy (Some (JObj ps)) = True"

text \<open>The object literal \<^verbatim>\<open>{ text, category }\<close> of two strings.\<close>

definition quote :: "string \<Rightarrow> string \<Rightarrow> json" where
  "quote t c = JObj [(''text'', JStr t), (''category'', JStr c)]"

text \<open>\<^verbatim>\<open>xs.map(q => q.k)\<close>: it throws as soon as one element is \<^verbatim>\<open>null\<close>.\<close>

fun mapProp :: "json list \<Rightarrow> string \<Rightarrow> error + jsval list" where
  "mapProp [] k = Inr []"
| "mapProp (q # qs) k =
     (case getProp q k of
        Inl e \<Rightarrow> Inl e
      | Inr v \<Rightarrow> (case mapProp qs k of Inl e \<Rightarrow> Inl e | Inr vs \<Rightarrow> Inr (v # vs)))"

text \<open>\<^verbatim>\<open>[...new Set(xs)]\<close>: the first occurrence of every value, in order.\<close>

definition newSet :: "'a list \<Rightarrow> 'a list" where
  "newSet xs = rev (remdups (rev xs))"

subsection \<open>The page state\<close>

text \<open>
  A drop-down \<^verbatim>\<open>select\<close> element: the values of its options and its current value.
  Assigning \<^verbatim>\<open>value\<close> selects the first option with that value; when there is none,
  no option is selected and the value reads as the empty string.
\<close>

record select =
  sel_options :: "string list"
  sel_value :: string

definition setValue :: "select \<Rightarrow> string \<Rightarrow> select" where
  "setValue sel v = sel\<lparr>sel_value := (if v \<in> set (sel_options sel) then v else [])\<rparr>"

text \<open>
  \<^verbatim>\<open>sel.innerHTML = `<option value="all">...</option>`\<close>: the one option \<^verbatim>\<open>all\<close>, which
  a drop-down then shows as selected; \<^verbatim>\<open>sel.appendChild(option)\<close> adds an option.
\<close>

definition allOption :: select where
  "allOption = \<lparr>sel_options = [''all''], sel_value = ''all''\<rparr>"

definition appendOption :: "string \<Rightarrow> select \<Rightarrow> select" where
  "appendOption v sel = sel\<lparr>sel_options := sel_options sel @ [v]\<rparr>"

text \<open>What the element \<^verbatim>\<open>quoteDisplay\<close> shows, without the markup.\<close>

datatype display =
    Blank
  | NoQuotesFound
  | NoQuotesFoundIn string
  | QuoteList "json list"
  | NoQuotesAvailable
  | RandomQuote json

text \<open>
  The messages the user is shown, by \<^verbatim>\<open>alert\<close> or in the notification box. The first
  six are those of \<^verbatim>\<open>script.js\<close>, the others those of \<^verbatim>\<open>part_002\<close>.
\<close>

datatype message =
    PleaseFillIn
  | QuoteAdded
  | ImportedSuccessfully
  | ImportFailed
  | SyncedFromServer
  | FailedToSync
  | SyncingWithServer
  | FetchingFromServer
  | FetchedFromServer
  | FailedToFetch
  | SyncedNewQuotes
  | NoNewQuotes
  | NoFileSelected
  | ImportedCount nat
  | NoNewImported
  | ImportFailedWith error

text \<open>
  \<open>quotes\<close> is the script's global array. \<open>ls_quotes\<close> and \<open>ls_selectedCategory\<close> are
  the \<^verbatim>\<open>localStorage\<close> items \<^verbatim>\<open>quotes\<close> and \<^verbatim>\<open>selectedCategory\<close> (\<open>None\<close> when the
  item is absent); the first is written by \<^verbatim>\<open>saveQuotes\<close> and by \<^verbatim>\<open>syncWithServer\<close>
  only, always with an array. \<open>ss_lastQuote\<close> is the \<^verbatim>\<open>sessionStorage\<close> item
  \<^verbatim>\<open>lastQuote\<close>. \<open>messages\<close> is the log of the messages shown, the latest last.
\<close>

record state =
  quotes :: "json list"
  ls_quotes :: "json list option"
  ls_selectedCategory :: "string option"
  ss_lastQuote :: "json option"
  categorySelect :: select
  categoryFilter :: select
  quoteDisplay :: display
  newQuoteText :: string
  newQuoteCategory :: string
  messages :: "message list"

text \<open>
  An event handler returns the state it leaves and the exception it did not catch, if
  any: what it wrote before throwing stays written.
\<close>

type_synonym handler = "state \<Rightarrow> state \<times> error option"

definition andThen :: "handler \<Rightarrow> handler \<Rightarrow> handler" where
  "andThen f g s = (case f s of (s', Some e) \<Rightarrow> (s', Some e) | (s', None) \<Rightarrow> g s')"

definition showMessage :: "message \<Rightarrow> state \<Rightarrow> state" where
  "showMessage m s = s\<lparr>messages := messages s @ [m]\<rparr>"

section \<open>The script of src/dom-manipulation/script.js\<close>

definition saveQuotes :: "state \<Rightarrow> state" where
  "saveQuotes s = s\<lparr>ls_quotes := Some (quotes s)\<rparr>"

text \<open>
  The loop of \<^verbatim>\<open>populateCategories\<close>: \<^verbatim>\<open>cat.charAt(0)\<close> throws a TypeError when the
  category is not a string, before the option is appended.
\<close>

fun addOptions :: "jsval list \<Rightarrow> handler" where
  "addOptions [] s = (s, None)"
| "addOptions (c # cs) s =
     (case c of
        Some (JStr cat) \<Rightarrow>
          addOptions cs
            (s\<lparr>categorySelect := appendOption cat (categorySelect s),
               categoryFilter := appendOption cat (categoryFilter s)\<rparr>)
      | _ \<Rightarrow> (s, Some TypeError))"

definition populateCategories :: handler where
  "populateCategories s =
     (case mapProp (quotes s) ''category'' of
        Inl e \<Rightarrow> (s, Some e)
      | Inr cs \<Rightarrow>
          addOptions (newSet cs) (s\<lparr>categorySelect := allOption, categoryFilter := allOption\<rparr>))"

text \<open>\<^verbatim>\<open>qs.filter(q => q.category === selected)\<close>\<close>

fun filterCategory :: "json list \<Rightarrow> string \<Rightarrow> error + json list" where
  "filterCategory [] selected = Inr []"
| "filterCategory (q # qs) selected =
     (case getProp q ''category'' of
        Inl e \<Rightarrow> Inl e
      | Inr c \<Rightarrow>
          (case filterCategory qs selected of
             Inl e \<Rightarrow> Inl e
           | Inr r \<Rightarrow> Inr (if strict_eq c (Some (JStr selected)) then q # r else r)))"

text \<open>
  The filtered view that \<^verbatim>\<open>filterQuotes\<close> and \<^verbatim>\<open>displayRandomQuote\<close> both compute:
  \<^verbatim>\<open>selected === "all" ? quotes : quotes.filter(q => q.category === selected)\<close>
\<close>

definition filteredQuotes :: "json list \<Rightarrow> string \<Rightarrow> error + json list" where
  "filteredQuotes qs selected =
     (if selected = ''all'' then Inr qs else filterCategory qs selected)"

definition filterQuotes :: handler where
  "filterQuotes s =
     (let selected = sel_value (categoryFilter s);
          s1 = s\<lparr>ls_selectedCategory := Some selected\<rparr>
      in case filteredQuotes (quotes s1) selected of
           Inl e \<Rightarrow> (s1, Some e)
         | Inr filtered \<Rightarrow>
             if length filtered = 0 then (s1\<lparr>quoteDisplay := NoQuotesFound\<rparr>, None)
             else if JNull \<in> set filtered then (s1, Some TypeError)
             else (s1\<lparr>quoteDisplay := QuoteList filtered\<rparr>, None))"

text \<open>
  \<^verbatim>\<open>Math.random()\<close> returns a double, and \<^verbatim>\<open>Math.random() * n\<close> is the product as
  floating-point arithmetic computes it: the exact product rounded to a nearest double.
  Both belong to the platform. A finite double is a rational number \<open>m * 2 ^ e\<close> with a
  53-bit significand \<open>m\<close>; \<open>nearestDouble p x\<close> says that \<open>p\<close> is a double that no other
  double beats in distance to \<open>x\<close>, which is what rounding to nearest returns.
\<close>

definition isDouble :: "rat \<Rightarrow> bool" where
  "isDouble x =
     (\<exists>(m::int) (e::nat). \<bar>m\<bar> < 2 ^ 53 \<and>
        (e \<le> 971 \<and> x = of_int m * 2 ^ e \<or> e \<le> 1074 \<and> x = of_int m / 2 ^ e))"

definition nearestDouble :: "rat \<Rightarrow> rat \<Rightarrow> bool" where
  "nearestDouble p x = (isDouble p \<and> (\<forall>d. isDouble d \<longrightarrow> \<bar>x - p\<bar> \<le> \<bar>x - d\<bar>))"

text \<open>
  \<^verbatim>\<open>Math.floor(Math.random() * n)\<close>, for the number \<open>r\<close> that \<^verbatim>\<open>Math.random()\<close>
  returned and the multiplication \<open>fmul\<close> of the platform. \<^verbatim>\<open>xs[i]\<close> is
  \<^verbatim>\<open>undefined\<close> outside the array.
\<close>

definition randomIndex :: "(rat \<Rightarrow> rat \<Rightarrow> rat) \<Rightarrow> rat \<Rightarrow> nat \<Rightarrow> int" where
  "randomIndex fmul r n = \<lfloor>fmul r (of_nat n)\<rfloor>"

definition at_index :: "'a list \<Rightarrow> int \<Rightarrow> 'a option" where
  "at_index xs i = (if 0 \<le> i \<and> i < int (length xs) then Some (xs ! nat i) else None)"

definition displayRandomQuote :: "(rat \<Rightarrow> rat \<Rightarrow> rat) \<Rightarrow> rat \<Rightarrow> handler" where
  "displayRandomQuote fmul r s =
     (case filteredQuotes (quotes s) (sel_value (categorySelect s)) of
        Inl e \<Rightarrow> (s, Some e)
      | Inr fq \<Rightarrow>
          if length fq = 0 then (s\<lparr>quoteDisplay := NoQuotesAvailable\<rparr>, None)
          else
            (case at_index fq (randomIndex fmul r (length fq)) of
               None \<Rightarrow> (s, Some TypeError)
             | Some JNull \<Rightarrow> (s, Some TypeError)
             | Some selectedQuote \<Rightarrow>
                 (s\<lparr>quoteDisplay := RandomQuote selectedQuote,
                    ss_lastQuote := Some selectedQuote\<rparr>, None)))"

text \<open>
  \<^verbatim>\<open>addQuote\<close> reads the two input fields of the form. After the validation it pushes,
  saves, and refreshes the two drop-downs and the list.
\<close>

definition addQuote :: handler where
  "addQuote s =
     (let text = trim (newQuoteText s);
          category = toLowerCase (trim (newQuoteCategory s))
      in if text = [] \<or> category = [] then (showMessage PleaseFillIn s, None)
         else
           andThen populateCategories
             (andThen filterQuotes
               (\<lambda>s'. (showMessage QuoteAdded (s'\<lparr>newQuoteText := [], newQuoteCategory := []\<rparr>),
                       None)))
             (saveQuotes (s\<lparr>quotes := quotes s @ [quote text category]\<rparr>)))"

text \<open>
  The answer of \<^verbatim>\<open>fetch\<close>: the promise is rejected, or there is a response, with its
  \<^verbatim>\<open>ok\<close> flag and the outcome of \<^verbatim>\<open>res.json()\<close>.
\<close>

datatype fetched = Rejected | Response bool "error + json"

text \<open>The literal \<^verbatim>\<open>{ text: post.title, category: "server" }\<close>\<close>

definition serverQuote :: "jsval \<Rightarrow> json" where
  "serverQuote title =
     JObj ((case title of None \<Rightarrow> [] | Some t \<Rightarrow> [(''text'', t)]) @ [(''category'', JStr ''server'')])"

fun mapPosts :: "json list \<Rightarrow> error + json list" where
  "mapPosts [] = Inr []"
| "mapPosts (post # posts) =
     (case getProp post ''title'' of
        Inl e \<Rightarrow> Inl e
      | Inr t \<Rightarrow> (case mapPosts posts of Inl e \<Rightarrow> Inl e | Inr r \<Rightarrow> Inr (serverQuote t # r)))"

text \<open>
  \<^verbatim>\<open>serverQuotes.slice(0, 5).map(post => ({ text: post.title, category: "server" }))\<close>;
  on anything but an array \<^verbatim>\<open>slice\<close> or \<^verbatim>\<open>map\<close> is not a function.
\<close>

fun formattedQuotes :: "json \<Rightarrow> error + json list" where
  "formattedQuotes (JArr posts) = mapPosts (take 5 posts)"
| "formattedQuotes v = Inl TypeError"

text \<open>\<^verbatim>\<open>localQuotes.some(localQuote => localQuote.text === t)\<close>\<close>

fun someText :: "json list \<Rightarrow> jsval \<Rightarrow> error + bool" where
  "someText [] t = Inr False"
| "someText (localQuote # rest) t =
     (case getProp localQuote ''text'' of
        Inl e \<Rightarrow> Inl e
      | Inr lt \<Rightarrow> if strict_eq lt t then Inr True else someText rest t)"

text \<open>
  The \<^verbatim>\<open>forEach\<close> of \<^verbatim>\<open>syncWithServer\<close> over the formatted quotes, on the pair of the
  local variables \<^verbatim>\<open>localQuotes\<close> and \<^verbatim>\<open>updated\<close>. The formatted quotes are object
  literals of the script, so reading \<^verbatim>\<open>serverQuote.text\<close> never throws, and it is read
  once here, before the local quotes are searched.
\<close>

fun mergeServer :: "json list \<times> bool \<Rightarrow> json list \<Rightarrow> error + json list \<times> bool" where
  "mergeServer (localQuotes, updated) [] = Inr (localQuotes, updated)"
| "mergeServer (localQuotes, updated) (sq # sqs) =
     (case getProp sq ''text'' of
        Inl e \<Rightarrow> Inl e
      | Inr t \<Rightarrow>
          (case someText localQuotes t of
             Inl e \<Rightarrow> Inl e
           | Inr exists \<Rightarrow>
               if \<not> exists then mergeServer (localQuotes @ [sq], True) sqs
               else mergeServer (localQuotes, updated) sqs))"

text \<open>\<^verbatim>\<open>JSON.parse(localStorage.getItem("quotes")) || []\<close>\<close>

definition storedQuotes :: "state \<Rightarrow> json list" where
  "storedQuotes s = (case ls_quotes s of None \<Rightarrow> [] | Some qs \<Rightarrow> qs)"

text \<open>
  \<^verbatim>\<open>syncWithServer\<close>, from the moment the answer of the server is there. Everything
  is inside one \<^verbatim>\<open>try\<close>, so every exception ends in the failure notification.
\<close>

definition syncWithServer :: "fetched \<Rightarrow> state \<Rightarrow> state" where
  "syncWithServer r s =
     (case r of
        Rejected \<Rightarrow> showMessage FailedToSync s
      | Response ok body \<Rightarrow>
          (case body of
             Inl e \<Rightarrow> showMessage FailedToSync s
           | Inr serverQuotes \<Rightarrow>
               (case formattedQuotes serverQuotes of
                  Inl e \<Rightarrow> showMessage FailedToSync s
                | Inr formatted \<Rightarrow>
                    (case mergeServer (storedQuotes s, False) formatted of
                       Inl e \<Rightarrow> showMessage FailedToSync s
                     | Inr (localQuotes, updated) \<Rightarrow>
                         if updated then
                           (case andThen populateCategories filterQuotes
                                   (s\<lparr>quotes := localQuotes, ls_quotes := Some localQuotes\<rparr>) of
                              (s', Some e) \<Rightarrow> showMessage FailedToSync s'
                            | (s', None) \<Rightarrow> showMessage SyncedFromServer s')
                         else s))))"

text \<open>
  \<^verbatim>\<open>exportQuotes\<close> offers \<^verbatim>\<open>JSON.stringify(quotes, null, 2)\<close> as the file
  \<^verbatim>\<open>quotes.json\<close>: the result is the value that text denotes.
\<close>

definition exportQuotes :: "state \<Rightarrow> json" where
  "exportQuotes s = JArr (quotes s)"

text \<open>
  The \<^verbatim>\<open>onload\<close> handler of \<^verbatim>\<open>importFromJsonFile\<close>, for the outcome of
  \<^verbatim>\<open>JSON.parse\<close> on the text of the file. The whole body is inside one \<^verbatim>\<open>try\<close>.
\<close>

definition importFromJsonFile :: "error + json \<Rightarrow> state \<Rightarrow> state" where
  "importFromJsonFile parsed s =
     (case parsed of
        Inl e \<Rightarrow> showMessage ImportFailed s
      | Inr (JArr importedQuotes) \<Rightarrow>
          (case andThen populateCategories filterQuotes
                  (saveQuotes (s\<lparr>quotes := quotes s @ importedQuotes\<rparr>)) of
             (s', Some e) \<Rightarrow> showMessage ImportFailed s'
           | (s', None) \<Rightarrow> showMessage ImportedSuccessfully s')
      | Inr v \<Rightarrow> showMessage ImportFailed s)"

text \<open>\<^verbatim>\<open>localStorage.getItem("selectedCategory") || "all"\<close>\<close>

definition savedCategory :: "state \<Rightarrow> string" where
  "savedCategory s =
     (case ls_selectedCategory s of None \<Rightarrow> ''all'' | Some v \<Rightarrow> if v = [] then ''all'' else v)"

definition restoreFilter :: handler where
  "restoreFilter s =
     filterQuotes (s\<lparr>categoryFilter := setValue (categoryFilter s) (savedCategory s)\<rparr>)"

text \<open>
  The state of a first visit: nothing is stored, so \<open>quotes\<close> is the default array of
  the script, and the page is as the HTML has it.
\<close>

definition defaultQuotes :: "json list" where
  "defaultQuotes =
     [quote ''The best way to predict the future is to invent it.'' ''inspiration'',
      quote ''Do not be afraid to give up the good to go for the great.'' ''motivation'',
      quote ''Success usually comes to those who are too busy to be looking for it.'' ''success'']"

definition emptySelect :: select where
  "emptySelect = \<lparr>sel_options = [], sel_value = []\<rparr>"

definition load :: "json list option \<Rightarrow> string option \<Rightarrow> state" where
  "load stored selected =
     \<lparr>quotes = (case stored of None \<Rightarrow> defaultQuotes | Some qs \<Rightarrow> qs),
      ls_quotes = stored,
      ls_selectedCategory = selected,
      ss_lastQuote = None,
      categorySelect = emptySelect,
      categoryFilter = emptySelect,
      quoteDisplay = Blank,
      newQuoteText = [],
      newQuoteCategory = [],
      messages = []\<rparr>"

section \<open>The script of src/unnamed/part_002\<close>

text \<open>
  \<^verbatim>\<open>quotes.map(q => q.category.toLowerCase())\<close>: a TypeError when a quote is
  \<^verbatim>\<open>null\<close> or its category is not a string.
\<close>

fun mapLowerCategory :: "json list \<Rightarrow> error + string list" where
  "mapLowerCategory [] = Inr []"
| "mapLowerCategory (q # qs) =
     (case getProp q ''category'' of
        Inr (Some (JStr c)) \<Rightarrow>
          (case mapLowerCategory qs of Inl e \<Rightarrow> Inl e | Inr r \<Rightarrow> Inr (toLowerCase c # r))
      | Inr v \<Rightarrow> Inl TypeError
      | Inl e \<Rightarrow> Inl e)"

text \<open>
  The categories are computed and sorted first (\<^verbatim>\<open>sort()\<close> orders strings by their code
  units), then both drop-downs are rebuilt.
\<close>

definition populateCategories2 :: handler where
  "populateCategories2 s =
     (case mapLowerCategory (quotes s) of
        Inl e \<Rightarrow> (s, Some e)
      | Inr cs \<Rightarrow>
          (let categories = sort (newSet cs)
           in (s\<lparr>categorySelect := fold appendOption categories allOption,
                 categoryFilter := fold appendOption categories allOption\<rparr>, None)))"

definition filterQuotes2 :: handler where
  "filterQuotes2 s =
     (let selected = sel_value (categoryFilter s);
          s1 = s\<lparr>ls_selectedCategory := Some selected\<rparr>
      in case filteredQuotes (quotes s1) selected of
           Inl e \<Rightarrow> (s1, Some e)
         | Inr filtered \<Rightarrow>
             if length filtered = 0 then (s1\<lparr>quoteDisplay := NoQuotesFoundIn selected\<rparr>, None)
             else if JNull \<in> set filtered then (s1, Some TypeError)
             else (s1\<lparr>quoteDisplay := QuoteList filtered\<rparr>, None))"

text \<open>
  \<^verbatim>\<open>fetchQuotesFromServer\<close> catches every failure and returns the empty array then.
\<close>

definition fetchQuotesFromServer :: "fetched \<Rightarrow> state \<Rightarrow> json list \<times> state" where
  "fetchQuotesFromServer r s =
     (let s1 = showMessage FetchingFromServer s
      in case r of
           Rejected \<Rightarrow> ([], showMessage FailedToFetch s1)
         | Response ok body \<Rightarrow>
             if \<not> ok then ([], showMessage FailedToFetch s1)
             else
               (case body of
                  Inl e \<Rightarrow> ([], showMessage FailedToFetch s1)
                | Inr serverPosts \<Rightarrow>
                    (case formattedQuotes serverPosts of
                       Inl e \<Rightarrow> ([], showMessage FailedToFetch s1)
                     | Inr fetchedQuotes \<Rightarrow>
                         (fetchedQuotes, showMessage FetchedFromServer s1))))"

text \<open>
  The \<^verbatim>\<open>forEach\<close> of this revision adds a server quote when
  \<^verbatim>\<open>!exists && serverQuote.text && serverQuote.category\<close>.
\<close>

fun mergeServer2 :: "json list \<times> bool \<Rightarrow> json list \<Rightarrow> error + json list \<times> bool" where
  "mergeServer2 (localQuotes, updated) [] = Inr (localQuotes, updated)"
| "mergeServer2 (localQuotes, updated) (sq # sqs) =
     (case getProp sq ''text'' of
        Inl e \<Rightarrow> Inl e
      | Inr t \<Rightarrow>
          (case someText localQuotes t of
             Inl e \<Rightarrow> Inl e
           | Inr exists \<Rightarrow>
               (case getProp sq ''category'' of
                  Inl e \<Rightarrow> Inl e
                | Inr c \<Rightarrow>
                    if \<not> exists \<and> truthy t \<and> truthy c
                    then mergeServer2 (localQuotes @ [sq], True) sqs
                    else mergeServer2 (localQuotes, updated) sqs)))"

text \<open>
  \<^verbatim>\<open>syncWithServer\<close> of this revision has no \<^verbatim>\<open>try\<close>: an exception of the merge or
  of the refresh leaves the handler.
\<close>

definition syncWithServer2 :: "fetched \<Rightarrow> handler" where
  "syncWithServer2 r s =
     (case fetchQuotesFromServer r (showMessage SyncingWithServer s) of
        (serverQuotes, s1) \<Rightarrow>
          (case mergeServer2 (storedQuotes s1, False) serverQuotes of
             Inl e \<Rightarrow> (s1, Some e)
           | Inr (localQuotes, updated) \<Rightarrow>
               if updated then
                 andThen populateCategories2
                   (andThen filterQuotes2 (\<lambda>s'. (showMessage SyncedNewQuotes s', None)))
                   (saveQuotes (s1\<lparr>quotes := localQuotes\<rparr>))
               else (showMessage NoNewQuotes s1, None)))"

text \<open>
  \<^verbatim>\<open>quotes.some(q => q.text === impQuote.text && q.category === impQuote.category)\<close>
\<close>

fun someTextCategory :: "json list \<Rightarrow> json \<Rightarrow> error + bool" where
  "someTextCategory [] impQuote = Inr False"
| "someTextCategory (q # qs) impQuote =
     (case getProp q ''text'' of
        Inl e \<Rightarrow> Inl e
      | Inr qt \<Rightarrow>
          (case getProp impQuote ''text'' of
             Inl e \<Rightarrow> Inl e
           | Inr it \<Rightarrow>
               if strict_eq qt it then
                 (case getProp q ''category'' of
                    Inl e \<Rightarrow> Inl e
                  | Inr qc \<Rightarrow>
                      (case getProp impQuote ''category'' of
                         Inl e \<Rightarrow> Inl e
                       | Inr ic \<Rightarrow>
                           if strict_eq qc ic then Inr True else someTextCategory qs impQuote))
               else someTextCategory qs impQuote))"

text \<open>
  One round of the \<^verbatim>\<open>forEach\<close> of \<^verbatim>\<open>importFromJsonFile\<close>: the quote to push, if any.
  \<^verbatim>\<open>impQuote.category.toLowerCase()\<close> throws when the category is not a string.
\<close>

definition importStep :: "json list \<Rightarrow> json \<Rightarrow> error + json option" where
  "importStep qs impQuote =
     (case someTextCategory qs impQuote of
        Inl e \<Rightarrow> Inl e
      | Inr exists \<Rightarrow>
          if exists then Inr None
          else
            (case getProp impQuote ''text'' of
               Inl e \<Rightarrow> Inl e
             | Inr None \<Rightarrow> Inr None
             | Inr (Some t) \<Rightarrow>
                 if \<not> truthy (Some t) then Inr None
                 else
                   (case getProp impQuote ''category'' of
                      Inl e \<Rightarrow> Inl e
                    | Inr c \<Rightarrow>
                        if \<not> truthy c then Inr None
                        else
                          (case c of
                             Some (JStr cat) \<Rightarrow>
                               Inr (Some (JObj [(''text'', t), (''category'', JStr (toLowerCase cat))]))
                           | _ \<Rightarrow> Inl TypeError))))"

text \<open>
  The whole \<^verbatim>\<open>forEach\<close>, on the global \<^verbatim>\<open>quotes\<close> and the counter \<^verbatim>\<open>addedCount\<close>:
  when a round throws, what the earlier rounds pushed stays in \<^verbatim>\<open>quotes\<close>.
\<close>

fun importLoop :: "json list \<times> nat \<Rightarrow> json list \<Rightarrow> (json list \<times> nat) \<times> error option" where
  "importLoop (qs, addedCount) [] = ((qs, addedCount), None)"
| "importLoop (qs, addedCount) (impQuote # rest) =
     (case importStep qs impQuote of
        Inl e \<Rightarrow> ((qs, addedCount), Some e)
      | Inr None \<Rightarrow> importLoop (qs, addedCount) rest
      | Inr (Some q) \<Rightarrow> importLoop (qs @ [q], Suc addedCount) rest)"

text \<open>
  \<^verbatim>\<open>importFromJsonFile\<close> of this revision: \<open>None\<close> when no file was chosen,
  otherwise the outcome of \<^verbatim>\<open>JSON.parse\<close> on the text of the file.
\<close>

definition importFromJsonFile2 :: "(error + json) option \<Rightarrow> state \<Rightarrow> state" where
  "importFromJsonFile2 file s =
     (case file of
        None \<Rightarrow> showMessage NoFileSelected s
      | Some (Inl e) \<Rightarrow> showMessage (ImportFailedWith e) s
      | Some (Inr (JArr importedQuotes)) \<Rightarrow>
          (case importLoop (quotes s, 0) importedQuotes of
             ((qs, addedCount), Some e) \<Rightarrow> showMessage (ImportFailedWith e) (s\<lparr>quotes := qs\<rparr>)
           | ((qs, addedCount), None) \<Rightarrow>
               if addedCount > 0 then
                 (case andThen populateCategories2 filterQuotes2 (saveQuotes (s\<lparr>quotes := qs\<rparr>)) of
                    (s', Some e) \<Rightarrow> showMessage (ImportFailedWith e) s'
                  | (s', None) \<Rightarrow> showMessage (ImportedCount addedCount) s')
               else showMessage NoNewImported (s\<lparr>quotes := qs\<rparr>))
      | Some (Inr v) \<Rightarrow> showMessage (ImportFailedWith InvalidFileFormat) s)"

text \<open>
  \<^verbatim>\<open>restoreFilter\<close> of this revision assigns the saved category only when one of the
  options has that value.
\<close>

definition restoreFilter2 :: handler where
  "restoreFilter2 s =
     filterQuotes2
       (if savedCategory s \<in> set (sel_options (categoryFilter s))
        then s\<lparr>categoryFilter := setValue (categoryFilter s) (savedCategory s)\<rparr>
        else s)"

section \<open>Notions the properties are stated with\<close>

text \<open>A quote whose \<^verbatim>\<open>text\<close>, or whose \<^verbatim>\<open>category\<close>, is strictly equal to a value.\<close>

definition hasText :: "jsval \<Rightarrow> json \<Rightarrow> bool" where
  "hasText t q = (case getProp q ''text'' of Inl e \<Rightarrow> False | Inr v \<Rightarrow> strict_eq v t)"

definition hasCategory :: "jsval \<Rightarrow> json \<Rightarrow> bool" where
  "hasCategory c q = (case getProp q ''category'' of Inl e \<Rightarrow> False | Inr v \<Rightarrow> strict_eq v c)"

text \<open>
  The candidates of one run: the formatted quotes, when the server answered with a body
  that could be parsed and mapped.
\<close>

definition fetchedCandidates :: "fetched \<Rightarrow> json list option" where
  "fetchedCandidates r =
     (case r of
        Rejected \<Rightarrow> None
      | Response ok body \<Rightarrow>
          (case body of
             Inl e \<Rightarrow> None
           | Inr v \<Rightarrow> (case formattedQuotes v of Inl e \<Rightarrow> None | Inr cs \<Rightarrow> Some cs)))"

text \<open>
  The texts of the candidates are values that \<^verbatim>\<open>===\<close> can find again: strings or other
  primitive values, not arrays or objects.
\<close>

definition comparableTexts :: "fetched \<Rightarrow> bool" where
  "comparableTexts r =
     (case fetchedCandidates r of
        None \<Rightarrow> True
      | Some cs \<Rightarrow>
          list_all (\<lambda>c. case getProp c ''text'' of Inl e \<Rightarrow> False | Inr t \<Rightarrow> strict_eq t t) cs)"

text \<open>
  The candidates of one run of \<^verbatim>\<open>part_002\<close>, where \<^verbatim>\<open>fetchQuotesFromServer\<close> also
  checks \<^verbatim>\<open>res.ok\<close> and returns the empty array on every failure.
\<close>

definition fetchedCandidates2 :: "fetched \<Rightarrow> json list" where
  "fetchedCandidates2 r =
     (case r of
        Rejected \<Rightarrow> []
      | Response ok body \<Rightarrow>
          if ok then (case fetchedCandidates r of None \<Rightarrow> [] | Some cs \<Rightarrow> cs) else [])"

text \<open>An answer of the server with six posts, for the instances below.\<close>

definition sixPosts :: fetched where
  "sixPosts = Response True (Inr (JArr
     [JObj [(''title'', JStr ''p1'')], JObj [(''title'', JStr ''p2'')],
      JObj [(''title'', JStr ''p3'')], JObj [(''title'', JStr ''p4'')],
      JObj [(''title'', JStr ''p5'')], JObj [(''title'', JStr ''p6'')]]))"

section \<open>Property reads and the merge loops\<close>

lemma trim_empty: "trim [] = []"
  by (simp add: trim_def)

lemma getProp_not_null: "q \<noteq> JNull \<Longrightarrow> \<exists>v. getProp q k = Inr v"
  by (cases q) auto

lemma someText_list_ex: "JNull \<notin> set lq \<Longrightarrow> someText lq t = Inr (list_ex (hasText t) lq)"
proof (induction lq)
  case Nil
  then show ?case by simp
next
  case (Cons q lq)
  then have "q \<noteq> JNull" by auto
  then obtain v where v: "getProp q ''text'' = Inr v"
    using getProp_not_null by blast
  with Cons show ?case by (simp add: hasText_def)
qed

lemma mergeServer_append:
  "mergeServer (lq, u) (cs @ ds) =
     (case mergeServer (lq, u) cs of Inl e \<Rightarrow> Inl e | Inr st \<Rightarrow> mergeServer st ds)"
  by (induction cs arbitrary: lq u) (auto split: sum.splits)

lemma mergeServer2_append:
  "mergeServer2 (lq, u) (cs @ ds) =
     (case mergeServer2 (lq, u) cs of Inl e \<Rightarrow> Inl e | Inr st \<Rightarrow> mergeServer2 st ds)"
  by (induction cs arbitrary: lq u) (auto split: sum.splits)

lemma serverQuote_text: "getProp (serverQuote t) ''text'' = Inr t"
  by (cases t) (simp_all add: serverQuote_def)

lemma serverQuote_category: "getProp (serverQuote t) ''category'' = Inr (Some (JStr ''server''))"
  by (cases t) (simp_all add: serverQuote_def)

subsection \<open>What a merge adds\<close>

lemma someText_append_True: "someText lq t = Inr True \<Longrightarrow> someText (lq @ xs) t = Inr True"
  by (induction lq) (auto split: sum.splits if_splits)

lemma someText_snoc:
  "someText lq t = Inr False \<Longrightarrow> getProp c ''text'' = Inr t \<Longrightarrow> strict_eq t t \<Longrightarrow>
   someText (lq @ [c]) t = Inr True"
  by (induction lq) (auto split: sum.splits if_splits)

lemma mergeServer_added:
  "mergeServer (lq, u) cs = Inr (lq', u') \<Longrightarrow>
   \<exists>added. lq' = lq @ added \<and> length added \<le> length cs \<and> set added \<subseteq> set cs \<and>
           u' = (u \<or> added \<noteq> [])"
proof (induction cs arbitrary: lq u)
  case Nil
  then show ?case by simp
next
  case (Cons c cs)
  from Cons.prems obtain t ex where t: "getProp c ''text'' = Inr t"
    and ex: "someText lq t = Inr ex"
    by (auto split: sum.splits)
  show ?case
  proof (cases ex)
    case True
    with Cons.prems t ex have "mergeServer (lq, u) cs = Inr (lq', u')" by simp
    from Cons.IH [OF this] show ?thesis by auto
  next
    case False
    with Cons.prems t ex have "mergeServer (lq @ [c], True) cs = Inr (lq', u')" by simp
    from Cons.IH [OF this] obtain added where
      a: "lq' = (lq @ [c]) @ added" "length added \<le> length cs" "set added \<subseteq> set cs" "u' = True"
      by auto
    show ?thesis
      by (rule exI [of _ "c # added"]) (use a in auto)
  qed
qed

lemma mergeServer2_added:
  "mergeServer2 (lq, u) cs = Inr (lq', u') \<Longrightarrow>
   \<exists>added. lq' = lq @ added \<and> length added \<le> length cs \<and> set added \<subseteq> set cs \<and>
           u' = (u \<or> added \<noteq> [])"
proof (induction cs arbitrary: lq u)
  case Nil
  then show ?case by simp
next
  case (Cons c cs)
  from Cons.prems obtain t ex k where t: "getProp c ''text'' = Inr t"
    and ex: "someText lq t = Inr ex" and k: "getProp c ''category'' = Inr k"
    by (auto split: sum.splits)
  show ?case
  proof (cases "\<not> ex \<and> truthy t \<and> truthy k")
    case False
    with Cons.prems t ex k have "mergeServer2 (lq, u) cs = Inr (lq', u')" by auto
    from Cons.IH [OF this] show ?thesis by auto
  next
    case True
    with Cons.prems t ex k have "mergeServer2 (lq @ [c], True) cs = Inr (lq', u')" by simp
    from Cons.IH [OF this] obtain added where
      a: "lq' = (lq @ [c]) @ added" "length added \<le> length cs" "set added \<subseteq> set cs" "u' = True"
      by auto
    show ?thesis
      by (rule exI [of _ "c # added"]) (use a in auto)
  qed
qed

lemma mergeServer_present:
  "mergeServer (lq, u) cs = Inr (lq', u') \<Longrightarrow> c \<in> set cs \<Longrightarrow> getProp c ''text'' = Inr t \<Longrightarrow>
   strict_eq t t \<Longrightarrow> someText lq' t = Inr True"
proof (induction cs arbitrary: lq u)
  case Nil
  then show ?case by simp
next
  case (Cons d ds)
  from Cons.prems(1) obtain td ex where td: "getProp d ''text'' = Inr td"
    and ex: "someText lq td = Inr ex"
    by (auto split: sum.splits)
  show ?case
  proof (cases ex)
    case True
    with Cons.prems td ex have m: "mergeServer (lq, u) ds = Inr (lq', u')" by simp
    show ?thesis
    proof (cases "c = d")
      case c: True
      from mergeServer_added [OF m] obtain added where "lq' = lq @ added" by auto
      with c True ex td Cons.prems(3) show ?thesis
        by (simp add: someText_append_True)
    next
      case False
      with Cons.prems have "c \<in> set ds" by simp
      from Cons.IH [OF m this Cons.prems(3,4)] show ?thesis .
    qed
  next
    case False
    with Cons.prems td ex have m: "mergeServer (lq @ [d], True) ds = Inr (lq', u')" by simp
    show ?thesis
    proof (cases "c = d")
      case c: True
      from mergeServer_added [OF m] obtain added where a: "lq' = (lq @ [d]) @ added" by auto
      from c False ex td Cons.prems(3,4) have "someText (lq @ [d]) t = Inr True"
        by (simp add: someText_snoc)
      with a show ?thesis
        by (simp only: someText_append_True)
    next
      case False
      with Cons.prems have "c \<in> set ds" by simp
      from Cons.IH [OF m this Cons.prems(3,4)] show ?thesis .
    qed
  qed
qed

lemma mergeServer_fixpoint:
  "\<forall>c\<in>set cs. \<exists>t. getProp c ''text'' = Inr t \<and> someText l t = Inr True \<Longrightarrow>
   mergeServer (l, u) cs = Inr (l, u)"
  by (induction cs) auto

lemma mergeServer_again:
  assumes m: "mergeServer (lq, u) cs = Inr (lq', u')"
    and cmp: "list_all (\<lambda>c. case getProp c ''text'' of Inl e \<Rightarrow> False | Inr t \<Rightarrow> strict_eq t t) cs"
  shows "mergeServer (lq', v) cs = Inr (lq', v)"
proof (rule mergeServer_fixpoint, rule ballI)
  fix c assume c: "c \<in> set cs"
  with cmp obtain t where t: "getProp c ''text'' = Inr t" "strict_eq t t"
    by (cases "getProp c ''text''") (auto simp: list_all_iff)
  from mergeServer_present [OF m c t] t
  show "\<exists>t. getProp c ''text'' = Inr t \<and> someText lq' t = Inr True" by blast
qed

lemma someText_append_ok:
  "someText lq t = Inr b \<Longrightarrow> JNull \<notin> set xs \<Longrightarrow>
   \<exists>b'. someText (lq @ xs) t = Inr b' \<and> (b \<longrightarrow> b')"
  by (induction lq) (auto simp: someText_list_ex split: sum.splits if_splits)

lemma mergeServer2_no_null: "mergeServer2 (lq, u) cs = Inr st \<Longrightarrow> JNull \<notin> set cs"
  by (induction cs arbitrary: lq u) (auto split: sum.splits if_splits)

lemma mergeServer2_present:
  "mergeServer2 (lq, u) cs = Inr (lq', u') \<Longrightarrow> c \<in> set cs \<Longrightarrow> getProp c ''text'' = Inr t \<Longrightarrow>
   getProp c ''category'' = Inr k \<Longrightarrow> strict_eq t t \<Longrightarrow>
   \<exists>ex. someText lq' t = Inr ex \<and> (ex \<or> \<not> truthy t \<or> \<not> truthy k)"
proof (induction cs arbitrary: lq u)
  case Nil
  then show ?case by simp
next
  case (Cons d ds)
  from Cons.prems(1) obtain td ex kd where td: "getProp d ''text'' = Inr td"
    and ex: "someText lq td = Inr ex" and kd: "getProp d ''category'' = Inr kd"
    by (auto split: sum.splits)
  show ?case
  proof (cases "\<not> ex \<and> truthy td \<and> truthy kd")
    case False
    with Cons.prems td ex kd have m: "mergeServer2 (lq, u) ds = Inr (lq', u')" by auto
    show ?thesis
    proof (cases "c = d")
      case c: True
      from mergeServer2_added [OF m] obtain added where a: "lq' = lq @ added" "set added \<subseteq> set ds"
        by auto
      from mergeServer2_no_null [OF m] a have "JNull \<notin> set added" by auto
      from someText_append_ok [OF ex this] a obtain b' where
        "someText lq' td = Inr b'" "ex \<longrightarrow> b'" by auto
      with c False td kd Cons.prems(3,4) show ?thesis by auto
    next
      case False
      with Cons.prems have "c \<in> set ds" by simp
      from Cons.IH [OF m this Cons.prems(3,4,5)] show ?thesis .
    qed
  next
    case True
    with Cons.prems td ex kd have m: "mergeServer2 (lq @ [d], True) ds = Inr (lq', u')" by simp
    show ?thesis
    proof (cases "c = d")
      case c: True
      from mergeServer2_added [OF m] obtain added where a: "lq' = (lq @ [d]) @ added" by auto
      from c True ex td Cons.prems(3,5) have "someText (lq @ [d]) t = Inr True"
        by (simp add: someText_snoc)
      with a have "someText lq' t = Inr True"
        by (simp only: someText_append_True)
      then show ?thesis by blast
    next
      case False
      with Cons.prems have "c \<in> set ds" by simp
      from Cons.IH [OF m this Cons.prems(3,4,5)] show ?thesis .
    qed
  qed
qed

lemma mergeServer2_fixpoint:
  "\<forall>c\<in>set cs. \<exists>t k ex. getProp c ''text'' = Inr t \<and> getProp c ''category'' = Inr k \<and>
      someText l t = Inr ex \<and> (ex \<or> \<not> truthy t \<or> \<not> truthy k) \<Longrightarrow>
   mergeServer2 (l, u) cs = Inr (l, u)"
  by (induction cs) auto

lemma mergeServer2_again:
  assumes m: "mergeServer2 (lq, u) cs = Inr (lq', u')"
    and cmp: "list_all (\<lambda>c. case getProp c ''text'' of Inl e \<Rightarrow> False | Inr t \<Rightarrow> strict_eq t t) cs"
  shows "mergeServer2 (lq', v) cs = Inr (lq', v)"
proof (rule mergeServer2_fixpoint, rule ballI)
  fix c assume c: "c \<in> set cs"
  with cmp obtain t where t: "getProp c ''text'' = Inr t" "strict_eq t t"
    by (cases "getProp c ''text''") (auto simp: list_all_iff)
  from mergeServer2_no_null [OF m] c have "c \<noteq> JNull" by auto
  then obtain k where k: "getProp c ''category'' = Inr k"
    using getProp_not_null by blast
  from mergeServer2_present [OF m c t(1) k t(2)] t k
  show "\<exists>t k ex. getProp c ''text'' = Inr t \<and> getProp c ''category'' = Inr k \<and>
      someText lq' t = Inr ex \<and> (ex \<or> \<not> truthy t \<or> \<not> truthy k)" by blast
qed

section \<open>The handlers and the store\<close>

lemma addOptions_store:
  "quotes (fst (addOptions cs s)) = quotes s \<and> ls_quotes (fst (addOptions cs s)) = ls_quotes s"
  by (induction cs arbitrary: s) (auto split: option.splits json.splits)

lemma populateCategories_store:
  "quotes (fst (populateCategories s)) = quotes s \<and>
   ls_quotes (fst (populateCategories s)) = ls_quotes s"
  by (simp add: populateCategories_def addOptions_store split: sum.splits)

lemma filterQuotes_store:
  "quotes (fst (filterQuotes s)) = quotes s \<and> ls_quotes (fst (filterQuotes s)) = ls_quotes s"
  by (simp add: filterQuotes_def Let_def split: sum.splits)

lemma populateCategories2_store:
  "quotes (fst (populateCategories2 s)) = quotes s \<and>
   ls_quotes (fst (populateCategories2 s)) = ls_quotes s"
  by (simp add: populateCategories2_def Let_def split: sum.splits)

lemma filterQuotes2_store:
  "quotes (fst (filterQuotes2 s)) = quotes s \<and> ls_quotes (fst (filterQuotes2 s)) = ls_quotes s"
  by (simp add: filterQuotes2_def Let_def split: sum.splits)

lemma andThen_store:
  assumes "\<And>s. quotes (fst (f s)) = quotes s \<and> ls_quotes (fst (f s)) = ls_quotes s"
    and "\<And>s. quotes (fst (g s)) = quotes s \<and> ls_quotes (fst (g s)) = ls_quotes s"
  shows "quotes (fst (andThen f g s)) = quotes s \<and> ls_quotes (fst (andThen f g s)) = ls_quotes s"
proof (cases "f s")
  case (Pair s' e)
  with assms(1) [of s] have s': "quotes s' = quotes s \<and> ls_quotes s' = ls_quotes s" by simp
  show ?thesis
  proof (cases e)
    case None
    with Pair s' assms(2) [of s'] show ?thesis by (simp add: andThen_def)
  next
    case (Some a)
    with Pair s' show ?thesis by (simp add: andThen_def)
  qed
qed

lemmas refresh_store = andThen_store [of populateCategories filterQuotes, OF populateCategories_store filterQuotes_store]

lemma syncWithServer_unfold:
  "syncWithServer r s =
     (case fetchedCandidates r of
        None \<Rightarrow> showMessage FailedToSync s
      | Some cs \<Rightarrow>
          (case mergeServer (storedQuotes s, False) cs of
             Inl e \<Rightarrow> showMessage FailedToSync s
           | Inr (lq, upd) \<Rightarrow>
               if upd then
                 (case andThen populateCategories filterQuotes (s\<lparr>quotes := lq, ls_quotes := Some lq\<rparr>) of
                    (s', Some e) \<Rightarrow> showMessage FailedToSync s'
                  | (s', None) \<Rightarrow> showMessage SyncedFromServer s')
               else s))"
  by (simp add: syncWithServer_def fetchedCandidates_def split: fetched.splits sum.splits)

lemma syncWithServer_cases:
  "(quotes (syncWithServer r s) = quotes s \<and> ls_quotes (syncWithServer r s) = ls_quotes s \<and>
      storedQuotes (syncWithServer r s) = storedQuotes s \<and>
      (case fetchedCandidates r of None \<Rightarrow> True
       | Some cs \<Rightarrow> (case mergeServer (storedQuotes s, False) cs of Inl e \<Rightarrow> True | Inr (lq, upd) \<Rightarrow> \<not> upd)))
   \<or> (\<exists>cs lq. fetchedCandidates r = Some cs \<and> mergeServer (storedQuotes s, False) cs = Inr (lq, True) \<and>
        quotes (syncWithServer r s) = lq \<and> ls_quotes (syncWithServer r s) = Some lq)"
proof (cases "fetchedCandidates r")
  case None
  then show ?thesis by (simp add: syncWithServer_unfold showMessage_def storedQuotes_def)
next
  case (Some cs)
  show ?thesis
  proof (cases "mergeServer (storedQuotes s, False) cs")
    case (Inl e)
    with Some show ?thesis by (simp add: syncWithServer_unfold showMessage_def storedQuotes_def)
  next
    case (Inr st)
    obtain lq upd where st: "st = (lq, upd)" by (cases st)
    show ?thesis
    proof (cases upd)
      case False
      with Some Inr st show ?thesis by (simp add: syncWithServer_unfold)
    next
      case True
      let ?s0 = "s\<lparr>quotes := lq, ls_quotes := Some lq\<rparr>"
      obtain s' e where r: "andThen populateCategories filterQuotes ?s0 = (s', e)"
        by (cases "andThen populateCategories filterQuotes ?s0")
      with refresh_store [of ?s0] have "quotes s' = lq \<and> ls_quotes s' = Some lq" by simp
      with Some Inr st True r show ?thesis
        by (cases e) (simp_all add: syncWithServer_unfold showMessage_def)
    qed
  qed
qed

lemma fetchQuotesFromServer_fst: "fst (fetchQuotesFromServer r s) = fetchedCandidates2 r"
  by (simp add: fetchQuotesFromServer_def fetchedCandidates2_def fetchedCandidates_def Let_def
      split: fetched.splits sum.splits)

lemma fetchQuotesFromServer_snd:
  "quotes (snd (fetchQuotesFromServer r s)) = quotes s \<and>
   ls_quotes (snd (fetchQuotesFromServer r s)) = ls_quotes s"
  by (simp add: fetchQuotesFromServer_def Let_def showMessage_def
      split: fetched.splits sum.splits)

lemmas refresh2_store =
  andThen_store [of populateCategories2 "andThen filterQuotes2 (\<lambda>s'. (showMessage SyncedNewQuotes s', None))",
    OF populateCategories2_store andThen_store [of filterQuotes2 "\<lambda>s'. (showMessage SyncedNewQuotes s', None)", OF filterQuotes2_store]]

lemma syncWithServer2_cases:
  "(quotes (fst (syncWithServer2 r s)) = quotes s \<and> ls_quotes (fst (syncWithServer2 r s)) = ls_quotes s \<and>
      (case mergeServer2 (storedQuotes s, False) (fetchedCandidates2 r) of
         Inl e \<Rightarrow> True | Inr (lq, upd) \<Rightarrow> \<not> upd))
   \<or> (\<exists>lq. mergeServer2 (storedQuotes s, False) (fetchedCandidates2 r) = Inr (lq, True) \<and>
        quotes (fst (syncWithServer2 r s)) = lq \<and> ls_quotes (fst (syncWithServer2 r s)) = Some lq)"
proof -
  let ?s0 = "showMessage SyncingWithServer s"
  obtain cs s1 where f: "fetchQuotesFromServer r ?s0 = (cs, s1)"
    by (cases "fetchQuotesFromServer r ?s0")
  from f fetchQuotesFromServer_fst [of r ?s0] have cs: "cs = fetchedCandidates2 r" by simp
  from f fetchQuotesFromServer_snd [of r ?s0]
  have s1: "quotes s1 = quotes s" "ls_quotes s1 = ls_quotes s"
    by (simp_all add: showMessage_def)
  then have st: "storedQuotes s1 = storedQuotes s" by (simp add: storedQuotes_def)
  show ?thesis
  proof (cases "mergeServer2 (storedQuotes s, False) cs")
    case (Inl e)
    with f st s1 cs show ?thesis by (simp add: syncWithServer2_def)
  next
    case (Inr p)
    obtain lq upd where p: "p = (lq, upd)" by (cases p)
    show ?thesis
    proof (cases upd)
      case False
      with Inr p f st s1 cs show ?thesis by (simp add: syncWithServer2_def showMessage_def)
    next
      case True
      let ?s2 = "saveQuotes (s1\<lparr>quotes := lq\<rparr>)"
      from refresh2_store [of ?s2]
      have "quotes (fst (andThen populateCategories2
               (andThen filterQuotes2 (\<lambda>s'. (showMessage SyncedNewQuotes s', None))) ?s2)) = lq
          \<and> ls_quotes (fst (andThen populateCategories2
               (andThen filterQuotes2 (\<lambda>s'. (showMessage SyncedNewQuotes s', None))) ?s2)) = Some lq"
        by (simp add: saveQuotes_def showMessage_def)
      with Inr p True f st cs show ?thesis by (simp add: syncWithServer2_def)
    qed
  qed
qed


text \<open>The definitions that a closed instance is evaluated with.\<close>

lemmas model_defs = trim_def isWhiteSpace_def toLowerCase_def quote_def newSet_def setValue_def
  allOption_def appendOption_def andThen_def showMessage_def saveQuotes_def populateCategories_def
  filteredQuotes_def filterQuotes_def randomIndex_def at_index_def displayRandomQuote_def
  addQuote_def serverQuote_def storedQuotes_def syncWithServer_def exportQuotes_def
  importFromJsonFile_def savedCategory_def restoreFilter_def defaultQuotes_def emptySelect_def
  load_def populateCategories2_def filterQuotes2_def fetchQuotesFromServer_def
  syncWithServer2_def importStep_def importFromJsonFile2_def restoreFilter2_def hasText_def
  hasCategory_def fetchedCandidates_def comparableTexts_def fetchedCandidates2_def Let_def

section \<open>Synchronisation: which candidates are skipped\<close>

text \<open>
  C1, as the code has it. In every run of the merge, when the candidate
  \<^verbatim>\<open>{ text: t, category: "server" }\<close> is reached (after the earlier candidates \<open>cs\<close> brought
  the local list to \<open>lq1\<close>), it is skipped exactly when some quote of \<open>lq1\<close> has a text
  strictly equal to \<open>t\<close>, whatever the category of that quote; otherwise it is appended.
  The comments of both revisions say so ("by text"). In \<^verbatim>\<open>part_002\<close> a candidate is
  skipped as well when its text is missing or empty. The local list holds no \<^verbatim>\<open>null\<close>
  (reading the text of a \<^verbatim>\<open>null\<close> quote throws).
\<close>

theorem sync_skips_by_text:
  "(mergeServer (lq, u) cs = Inr (lq1, u1) \<and> JNull \<notin> set lq1 \<longrightarrow>
      mergeServer (lq, u) (cs @ [serverQuote t]) =
        Inr (if list_ex (hasText t) lq1 then (lq1, u1) else (lq1 @ [serverQuote t], True)))
   \<and> (mergeServer2 (lq, u) cs = Inr (lq1, u1) \<and> JNull \<notin> set lq1 \<longrightarrow>
      mergeServer2 (lq, u) (cs @ [serverQuote t]) =
        Inr (if list_ex (hasText t) lq1 \<or> \<not> truthy t then (lq1, u1)
             else (lq1 @ [serverQuote t], True)))"
  by (auto simp: mergeServer_append mergeServer2_append serverQuote_text serverQuote_category
      someText_list_ex)

text \<open>
  An instance of each half: a second candidate with the text of the first is skipped,
  and in \<^verbatim>\<open>part_002\<close> a candidate with a new text is appended.
\<close>

theorem sync_skips_by_text_witness:
  "mergeServer ([], False) [serverQuote (Some (JStr ''B''))] = Inr ([serverQuote (Some (JStr ''B''))], True)
   \<and> JNull \<notin> set [serverQuote (Some (JStr ''B''))]
   \<and> mergeServer ([], False) ([serverQuote (Some (JStr ''B''))] @ [serverQuote (Some (JStr ''B''))])
       = Inr ([serverQuote (Some (JStr ''B''))], True)
   \<and> mergeServer2 ([quote ''A'' ''x''], False) [] = Inr ([quote ''A'' ''x''], False)
   \<and> JNull \<notin> set [quote ''A'' ''x'']
   \<and> mergeServer2 ([quote ''A'' ''x''], False) ([] @ [serverQuote (Some (JStr ''C''))])
       = Inr ([quote ''A'' ''x'', serverQuote (Some (JStr ''C''))], True)"
proof -
  have h1: "mergeServer ([], False) [serverQuote (Some (JStr ''B''))]
              = Inr ([serverQuote (Some (JStr ''B''))], True)
            \<and> JNull \<notin> set [serverQuote (Some (JStr ''B''))]"
    by (simp add: serverQuote_def)
  have h2: "mergeServer2 ([quote ''A'' ''x''], False) [] = Inr ([quote ''A'' ''x''], False)
            \<and> JNull \<notin> set [quote ''A'' ''x'']"
    by (simp add: quote_def)
  from sync_skips_by_text [of "[]" False "[serverQuote (Some (JStr ''B''))]"
      "[serverQuote (Some (JStr ''B''))]" True "Some (JStr ''B'')"] h1
  have c1: "mergeServer ([], False) ([serverQuote (Some (JStr ''B''))] @ [serverQuote (Some (JStr ''B''))])
       = Inr ([serverQuote (Some (JStr ''B''))], True)"
    by (simp add: hasText_def serverQuote_def)
  from sync_skips_by_text [of "[quote ''A'' ''x'']" False "[]" "[quote ''A'' ''x'']" False "Some (JStr ''C'')"] h2
  have c2: "mergeServer2 ([quote ''A'' ''x''], False) ([] @ [serverQuote (Some (JStr ''C''))])
       = Inr ([quote ''A'' ''x'', serverQuote (Some (JStr ''C''))], True)"
    by (simp add: hasText_def quote_def)
  from h1 h2 c1 c2 show ?thesis by blast
qed

text \<open>
  C1 as it is stated fails: the store holds the quote (A, x) and the server sends the
  title A. No stored quote has the pair (A, server), and still the candidate is skipped
  in both revisions, because the text A is there.
\<close>

theorem sync_pair_key_counterexample:
  "\<not> list_ex (\<lambda>q. hasText (Some (JStr ''A'')) q \<and> hasCategory (Some (JStr ''server'')) q)
        [quote ''A'' ''x'']
   \<and> fetchedCandidates (Response True (Inr (JArr [JObj [(''title'', JStr ''A'')]])))
       = Some [quote ''A'' ''server'']
   \<and> mergeServer ([quote ''A'' ''x''], False) [quote ''A'' ''server'']
       = Inr ([quote ''A'' ''x''], False)
   \<and> mergeServer2 ([quote ''A'' ''x''], False) [quote ''A'' ''server'']
       = Inr ([quote ''A'' ''x''], False)
   \<and> quotes (syncWithServer (Response True (Inr (JArr [JObj [(''title'', JStr ''A'')]])))
        (load (Some [quote ''A'' ''x'']) None)) = [quote ''A'' ''x'']
   \<and> quotes (fst (syncWithServer2 (Response True (Inr (JArr [JObj [(''title'', JStr ''A'')]])))
        (load (Some [quote ''A'' ''x'']) None))) = [quote ''A'' ''x'']"
  by (simp add: hasText_def hasCategory_def quote_def fetchedCandidates_def serverQuote_def
      syncWithServer_def syncWithServer2_def fetchQuotesFromServer_def load_def storedQuotes_def
      showMessage_def Let_def)

section \<open>Synchronisation is idempotent\<close>

text \<open>
  C4. When the texts of the candidates are strings (or other primitive values), a second
  run of the synchronisation with the same answer of the server leaves the store, in
  memory and persisted, as the first run left it. This holds for both revisions.
\<close>

theorem sync_idempotent:
  assumes "comparableTexts r"
  shows "quotes (syncWithServer r (syncWithServer r s)) = quotes (syncWithServer r s)
    \<and> ls_quotes (syncWithServer r (syncWithServer r s)) = ls_quotes (syncWithServer r s)
    \<and> quotes (fst (syncWithServer2 r (fst (syncWithServer2 r s)))) = quotes (fst (syncWithServer2 r s))
    \<and> ls_quotes (fst (syncWithServer2 r (fst (syncWithServer2 r s)))) = ls_quotes (fst (syncWithServer2 r s))"
proof -
  let ?cmp = "list_all (\<lambda>c. case getProp c ''text'' of Inl e \<Rightarrow> False | Inr t \<Rightarrow> strict_eq t t)"
  let ?s1 = "syncWithServer r s"
  have one: "quotes (syncWithServer r ?s1) = quotes ?s1 \<and> ls_quotes (syncWithServer r ?s1) = ls_quotes ?s1"
    using syncWithServer_cases [of r s]
  proof (elim disjE exE conjE)
    assume a: "quotes ?s1 = quotes s" "ls_quotes ?s1 = ls_quotes s" "storedQuotes ?s1 = storedQuotes s"
      and b: "case fetchedCandidates r of None \<Rightarrow> True
        | Some cs \<Rightarrow> (case mergeServer (storedQuotes s, False) cs of Inl e \<Rightarrow> True | Inr (lq, upd) \<Rightarrow> \<not> upd)"
    from syncWithServer_cases [of r ?s1] a b show ?thesis
      by (auto split: option.splits sum.splits)
  next
    fix cs lq
    assume c: "fetchedCandidates r = Some cs"
      and m: "mergeServer (storedQuotes s, False) cs = Inr (lq, True)"
      and q: "quotes ?s1 = lq" "ls_quotes ?s1 = Some lq"
    from assms c have "?cmp cs" by (simp add: comparableTexts_def)
    from mergeServer_again [OF m this, of False] q have "mergeServer (storedQuotes ?s1, False) cs = Inr (lq, False)"
      by (simp add: storedQuotes_def)
    with syncWithServer_cases [of r ?s1] c q show ?thesis by auto
  qed
  let ?s2 = "fst (syncWithServer2 r s)"
  have cmp2: "?cmp (fetchedCandidates2 r)"
    using assms by (auto simp: comparableTexts_def fetchedCandidates2_def split: fetched.splits option.splits)
  have two: "quotes (fst (syncWithServer2 r ?s2)) = quotes ?s2 \<and> ls_quotes (fst (syncWithServer2 r ?s2)) = ls_quotes ?s2"
    using syncWithServer2_cases [of r s]
  proof (elim disjE exE conjE)
    assume a: "quotes ?s2 = quotes s" "ls_quotes ?s2 = ls_quotes s"
      and b: "case mergeServer2 (storedQuotes s, False) (fetchedCandidates2 r) of
         Inl e \<Rightarrow> True | Inr (lq, upd) \<Rightarrow> \<not> upd"
    from a have "storedQuotes ?s2 = storedQuotes s" by (simp add: storedQuotes_def)
    with syncWithServer2_cases [of r ?s2] a b show ?thesis
      by (auto split: sum.splits)
  next
    fix lq
    assume m: "mergeServer2 (storedQuotes s, False) (fetchedCandidates2 r) = Inr (lq, True)"
      and q: "quotes ?s2 = lq" "ls_quotes ?s2 = Some lq"
    from mergeServer2_again [OF m cmp2, of False] q
    have "mergeServer2 (storedQuotes ?s2, False) (fetchedCandidates2 r) = Inr (lq, False)"
      by (simp add: storedQuotes_def)
    with syncWithServer2_cases [of r ?s2] q show ?thesis by auto
  qed
  from one two show ?thesis by simp
qed

text \<open>
  An instance: the store holds (A, x), the server sends the titles A and B. The first run
  appends (B, server) only, the second run changes nothing.
\<close>

theorem sync_idempotent_witness:
  "comparableTexts (Response True (Inr (JArr [JObj [(''title'', JStr ''A'')], JObj [(''title'', JStr ''B'')]])))
   \<and> quotes (syncWithServer (Response True (Inr (JArr [JObj [(''title'', JStr ''A'')], JObj [(''title'', JStr ''B'')]])))
        (load (Some [quote ''A'' ''x'']) None)) = [quote ''A'' ''x'', quote ''B'' ''server'']
   \<and> quotes (syncWithServer (Response True (Inr (JArr [JObj [(''title'', JStr ''A'')], JObj [(''title'', JStr ''B'')]])))
        (syncWithServer (Response True (Inr (JArr [JObj [(''title'', JStr ''A'')], JObj [(''title'', JStr ''B'')]])))
          (load (Some [quote ''A'' ''x'']) None))) = [quote ''A'' ''x'', quote ''B'' ''server'']"
proof -
  let ?r = "Response True (Inr (JArr [JObj [(''title'', JStr ''A'')], JObj [(''title'', JStr ''B'')]]))"
  let ?s = "load (Some [quote ''A'' ''x'']) None"
  have h: "comparableTexts ?r"
    by (simp add: comparableTexts_def fetchedCandidates_def serverQuote_def)
  have once: "quotes (syncWithServer ?r ?s) = [quote ''A'' ''x'', quote ''B'' ''server'']"
    by (simp add: model_defs)
  from sync_idempotent [OF h, of ?s] once h show ?thesis by simp
qed


section \<open>What one synchronisation adds\<close>

lemma mapPosts_server:
  "mapPosts posts = Inr cs \<Longrightarrow>
   length cs = length posts \<and>
   list_all (\<lambda>q. getProp q ''category'' = Inr (Some (JStr ''server''))) cs"
  by (induction posts arbitrary: cs) (auto simp: serverQuote_category split: sum.splits)

lemma fetchedCandidates_server:
  "fetchedCandidates r = Some cs \<Longrightarrow>
   length cs \<le> 5 \<and> list_all (\<lambda>q. getProp q ''category'' = Inr (Some (JStr ''server''))) cs"
proof -
  assume a: "fetchedCandidates r = Some cs"
  then obtain v where v: "formattedQuotes v = Inr cs"
    by (auto simp: fetchedCandidates_def split: fetched.splits sum.splits)
  then obtain posts where "v = JArr posts" "mapPosts (take 5 posts) = Inr cs"
    by (cases v) auto
  with mapPosts_server [of "take 5 posts" cs] show ?thesis by simp
qed

lemma fetchedCandidates2_server:
  "length (fetchedCandidates2 r) \<le> 5 \<and>
   list_all (\<lambda>q. getProp q ''category'' = Inr (Some (JStr ''server''))) (fetchedCandidates2 r)"
  using fetchedCandidates_server [of r]
  by (auto simp: fetchedCandidates2_def split: fetched.splits option.splits)

lemma sublist_server:
  "set added \<subseteq> set cs \<Longrightarrow> list_all P cs \<Longrightarrow> list_all P added"
  by (auto simp: list_all_iff)

lemma storedQuotes_up_to_date: "ls_quotes s = Some (quotes s) \<Longrightarrow> storedQuotes s = quotes s"
  by (simp add: storedQuotes_def)

text \<open>
  What one run of the synchronisation adds, in both revisions: at most five quotes, each
  with the category \<^verbatim>\<open>server\<close>. Either the store is as before, or it is the list the
  run read from \<^verbatim>\<open>localStorage\<close> (\<open>storedQuotes\<close>) followed by the added quotes, in
  memory and persisted.
\<close>

lemma sync_adds_to_stored:
  "(\<exists>added. length added \<le> 5
      \<and> list_all (\<lambda>q. getProp q ''category'' = Inr (Some (JStr ''server''))) added
      \<and> (quotes (syncWithServer r s) = quotes s \<and> ls_quotes (syncWithServer r s) = ls_quotes s
            \<and> added = []
          \<or> quotes (syncWithServer r s) = storedQuotes s @ added
            \<and> ls_quotes (syncWithServer r s) = Some (storedQuotes s @ added)))
   \<and> (\<exists>added. length added \<le> 5
      \<and> list_all (\<lambda>q. getProp q ''category'' = Inr (Some (JStr ''server''))) added
      \<and> (quotes (fst (syncWithServer2 r s)) = quotes s
            \<and> ls_quotes (fst (syncWithServer2 r s)) = ls_quotes s \<and> added = []
          \<or> quotes (fst (syncWithServer2 r s)) = storedQuotes s @ added
            \<and> ls_quotes (fst (syncWithServer2 r s)) = Some (storedQuotes s @ added)))"
proof (rule conjI)
  let ?P = "list_all (\<lambda>q. getProp q ''category'' = Inr (Some (JStr ''server'')))"
  show "\<exists>added. length added \<le> 5 \<and> ?P added
      \<and> (quotes (syncWithServer r s) = quotes s \<and> ls_quotes (syncWithServer r s) = ls_quotes s
            \<and> added = []
          \<or> quotes (syncWithServer r s) = storedQuotes s @ added
            \<and> ls_quotes (syncWithServer r s) = Some (storedQuotes s @ added))"
    using syncWithServer_cases [of r s]
  proof (elim disjE exE conjE)
    assume "quotes (syncWithServer r s) = quotes s" "ls_quotes (syncWithServer r s) = ls_quotes s"
    then show ?thesis by (intro exI [of _ "[]"]) simp
  next
    fix cs lq
    assume c: "fetchedCandidates r = Some cs"
      and m: "mergeServer (storedQuotes s, False) cs = Inr (lq, True)"
      and q: "quotes (syncWithServer r s) = lq" "ls_quotes (syncWithServer r s) = Some lq"
    from mergeServer_added [OF m] obtain added where
      a: "lq = storedQuotes s @ added" "length added \<le> length cs" "set added \<subseteq> set cs" by auto
    from fetchedCandidates_server [OF c] a have "length added \<le> 5" "?P added"
      by (auto intro: sublist_server)
    with a q show ?thesis by (intro exI [of _ added]) simp
  qed
  show "\<exists>added. length added \<le> 5 \<and> ?P added
      \<and> (quotes (fst (syncWithServer2 r s)) = quotes s
            \<and> ls_quotes (fst (syncWithServer2 r s)) = ls_quotes s \<and> added = []
          \<or> quotes (fst (syncWithServer2 r s)) = storedQuotes s @ added
            \<and> ls_quotes (fst (syncWithServer2 r s)) = Some (storedQuotes s @ added))"
    using syncWithServer2_cases [of r s]
  proof (elim disjE exE conjE)
    assume "quotes (fst (syncWithServer2 r s)) = quotes s"
      "ls_quotes (fst (syncWithServer2 r s)) = ls_quotes s"
    then show ?thesis by (intro exI [of _ "[]"]) simp
  next
    fix lq
    assume m: "mergeServer2 (storedQuotes s, False) (fetchedCandidates2 r) = Inr (lq, True)"
      and q: "quotes (fst (syncWithServer2 r s)) = lq" "ls_quotes (fst (syncWithServer2 r s)) = Some lq"
    from mergeServer2_added [OF m] obtain added where
      a: "lq = storedQuotes s @ added" "length added \<le> length (fetchedCandidates2 r)"
        "set added \<subseteq> set (fetchedCandidates2 r)" by auto
    from fetchedCandidates2_server [of r] a have "length added \<le> 5" "?P added"
      by (auto intro: sublist_server)
    with a q show ?thesis by (intro exI [of _ added]) simp
  qed
qed

text \<open>
  So a run appends to the store whenever the persisted copy is up to date, which
  \<^verbatim>\<open>saveQuotes\<close> ensures after every add and import.
\<close>

lemma sync_appends_when_up_to_date:
  assumes "ls_quotes s = Some (quotes s)"
  shows "(\<exists>added. length added \<le> 5
      \<and> list_all (\<lambda>q. getProp q ''category'' = Inr (Some (JStr ''server''))) added
      \<and> quotes (syncWithServer r s) = quotes s @ added)
   \<and> (\<exists>added. length added \<le> 5
      \<and> list_all (\<lambda>q. getProp q ''category'' = Inr (Some (JStr ''server''))) added
      \<and> quotes (fst (syncWithServer2 r s)) = quotes s @ added)"
  using sync_adds_to_stored [of r s] storedQuotes_up_to_date [OF assms]
  by (metis append_Nil2)

text \<open>An instance: of six posts sent, the first five are appended to the stored quote.\<close>

lemma sync_appends_when_up_to_date_example:
  "quotes (syncWithServer sixPosts (load (Some [quote ''A'' ''x'']) None))
     = [quote ''A'' ''x'', quote ''p1'' ''server'', quote ''p2'' ''server'',
        quote ''p3'' ''server'', quote ''p4'' ''server'', quote ''p5'' ''server'']"
  by (simp add: sixPosts_def model_defs)

text \<open>
  C10 fails on a first visit, in both revisions. Nothing is stored yet, so the global
  \<^verbatim>\<open>quotes\<close> holds the three default quotes, and the script synchronises at load. The
  run merges into \<^verbatim>\<open>JSON.parse(localStorage.getItem("quotes")) || []\<close>, the empty list,
  and then assigns \<^verbatim>\<open>quotes = localQuotes\<close>: of six posts sent, the store ends as the first
  five server quotes alone, in memory and persisted. The three default quotes are gone,
  so the run did not append to the store.
\<close>

theorem sync_replaces_unsaved_quotes:
  "quotes (load None None)
     = [quote ''The best way to predict the future is to invent it.'' ''inspiration'',
        quote ''Do not be afraid to give up the good to go for the great.'' ''motivation'',
        quote ''Success usually comes to those who are too busy to be looking for it.'' ''success'']
   \<and> ls_quotes (load None None) = None
   \<and> quotes (syncWithServer sixPosts (load None None))
     = [quote ''p1'' ''server'', quote ''p2'' ''server'', quote ''p3'' ''server'',
        quote ''p4'' ''server'', quote ''p5'' ''server'']
   \<and> ls_quotes (syncWithServer sixPosts (load None None))
     = Some [quote ''p1'' ''server'', quote ''p2'' ''server'', quote ''p3'' ''server'',
        quote ''p4'' ''server'', quote ''p5'' ''server'']
   \<and> quotes (fst (syncWithServer2 sixPosts (load None None)))
     = [quote ''p1'' ''server'', quote ''p2'' ''server'', quote ''p3'' ''server'',
        quote ''p4'' ''server'', quote ''p5'' ''server'']
   \<and> ls_quotes (fst (syncWithServer2 sixPosts (load None None)))
     = Some [quote ''p1'' ''server'', quote ''p2'' ''server'', quote ''p3'' ''server'',
        quote ''p4'' ''server'', quote ''p5'' ''server'']"
  by code_simp

section \<open>Adding a quote\<close>

lemma toLowerCase_empty: "(toLowerCase x = []) = (x = [])"
  by (simp add: toLowerCase_def)

lemma addQuote_invalid:
  "trim (newQuoteText s) = [] \<or> trim (newQuoteCategory s) = [] \<Longrightarrow>
   addQuote s = (showMessage PleaseFillIn s, None)"
  by (auto simp: addQuote_def Let_def toLowerCase_empty)

lemma addQuote_valid:
  assumes "trim (newQuoteText s) \<noteq> []" "trim (newQuoteCategory s) \<noteq> []"
  shows "quotes (fst (addQuote s))
           = quotes s @ [quote (trim (newQuoteText s)) (toLowerCase (trim (newQuoteCategory s)))]
       \<and> ls_quotes (fst (addQuote s)) = Some (quotes (fst (addQuote s)))"
proof -
  let ?q = "quote (trim (newQuoteText s)) (toLowerCase (trim (newQuoteCategory s)))"
  let ?done = "\<lambda>s'. (showMessage QuoteAdded (s'\<lparr>newQuoteText := [], newQuoteCategory := []\<rparr>), None :: error option)"
  let ?s1 = "saveQuotes (s\<lparr>quotes := quotes s @ [?q]\<rparr>)"
  have d: "\<And>s'. quotes (fst (?done s')) = quotes s' \<and> ls_quotes (fst (?done s')) = ls_quotes s'"
    by (simp add: showMessage_def)
  have a: "addQuote s = andThen populateCategories (andThen filterQuotes ?done) ?s1"
    using assms by (simp add: addQuote_def Let_def toLowerCase_empty)
  from andThen_store [of populateCategories "andThen filterQuotes ?done" ?s1,
      OF populateCategories_store andThen_store [of filterQuotes ?done, OF filterQuotes_store d]]
  show ?thesis by (simp add: a saveQuotes_def)
qed

text \<open>
  C7. When the text or the category is empty after trimming, \<^verbatim>\<open>addQuote\<close> reports the
  validation message and leaves the store unchanged, in memory and persisted. When both
  are non-empty after trimming, it appends exactly one quote (the trimmed text, the
  trimmed category in lower case) and persists the new list.
\<close>

theorem addQuote_validates:
  "(trim (newQuoteText s) = [] \<or> trim (newQuoteCategory s) = [] \<longrightarrow>
      snd (addQuote s) = None
      \<and> messages (fst (addQuote s)) = messages s @ [PleaseFillIn]
      \<and> quotes (fst (addQuote s)) = quotes s
      \<and> ls_quotes (fst (addQuote s)) = ls_quotes s)
   \<and> (trim (newQuoteText s) \<noteq> [] \<and> trim (newQuoteCategory s) \<noteq> [] \<longrightarrow>
      quotes (fst (addQuote s))
        = quotes s @ [quote (trim (newQuoteText s)) (toLowerCase (trim (newQuoteCategory s)))]
      \<and> ls_quotes (fst (addQuote s)) = Some (quotes (fst (addQuote s))))"
  using addQuote_invalid [of s] addQuote_valid [of s]
  by (auto simp: showMessage_def)

lemma toLowerCase_Test: "toLowerCase ''Test'' = ''test''"
  by code_simp

lemma trim_Test_quote: "trim ''  Test quote '' = ''Test quote''"
  by (simp add: trim_def isWhiteSpace_def)

lemma trim_Test: "trim ''Test'' = ''Test''"
  by (simp add: trim_def isWhiteSpace_def)

lemma trim_spaces: "trim ''   '' = []"
  by (simp add: trim_def isWhiteSpace_def)

text \<open>An instance of each case, on the state of a first visit.\<close>

theorem addQuote_validates_witness:
  "trim (newQuoteText ((load None None)\<lparr>newQuoteText := ''   '', newQuoteCategory := ''Test''\<rparr>)) = []
   \<and> messages (fst (addQuote ((load None None)\<lparr>newQuoteText := ''   '', newQuoteCategory := ''Test''\<rparr>)))
       = [PleaseFillIn]
   \<and> quotes (fst (addQuote ((load None None)\<lparr>newQuoteText := ''   '', newQuoteCategory := ''Test''\<rparr>)))
       = defaultQuotes
   \<and> ls_quotes (fst (addQuote ((load None None)\<lparr>newQuoteText := ''   '', newQuoteCategory := ''Test''\<rparr>)))
       = None
   \<and> quotes (fst (addQuote ((load None None)\<lparr>newQuoteText := ''  Test quote '', newQuoteCategory := ''Test''\<rparr>)))
       = defaultQuotes @ [quote ''Test quote'' ''test'']
   \<and> ls_quotes (fst (addQuote ((load None None)\<lparr>newQuoteText := ''  Test quote '', newQuoteCategory := ''Test''\<rparr>)))
       = Some (defaultQuotes @ [quote ''Test quote'' ''test''])"
  using addQuote_validates [of "(load None None)\<lparr>newQuoteText := ''   '', newQuoteCategory := ''Test''\<rparr>"]
    addQuote_validates [of "(load None None)\<lparr>newQuoteText := ''  Test quote '', newQuoteCategory := ''Test''\<rparr>"]
  by (simp add: trim_spaces trim_Test trim_Test_quote toLowerCase_Test load_def)

section \<open>The persisted copy\<close>

lemma importFromJsonFile_store:
  "quotes (importFromJsonFile parsed s)
     = (case parsed of Inr (JArr importedQuotes) \<Rightarrow> quotes s @ importedQuotes | _ \<Rightarrow> quotes s)
   \<and> ls_quotes (importFromJsonFile parsed s)
     = (case parsed of Inr (JArr importedQuotes) \<Rightarrow> Some (quotes s @ importedQuotes) | _ \<Rightarrow> ls_quotes s)"
proof (cases parsed)
  case (Inl e)
  then show ?thesis by (simp add: importFromJsonFile_def showMessage_def)
next
  case (Inr v)
  show ?thesis
  proof (cases v)
    case (JArr xs)
    let ?s1 = "saveQuotes (s\<lparr>quotes := quotes s @ xs\<rparr>)"
    obtain s' e where r: "andThen populateCategories filterQuotes ?s1 = (s', e)"
      by (cases "andThen populateCategories filterQuotes ?s1")
    with refresh_store [of ?s1]
    have "quotes s' = quotes s @ xs \<and> ls_quotes s' = Some (quotes s @ xs)"
      by (simp add: saveQuotes_def)
    with Inr JArr r show ?thesis
      by (cases e) (simp_all add: importFromJsonFile_def showMessage_def)
  qed (use Inr in \<open>simp_all add: importFromJsonFile_def showMessage_def\<close>)
qed

text \<open>
  C9. In \<^verbatim>\<open>script.js\<close>, whenever \<^verbatim>\<open>addQuote\<close>, \<^verbatim>\<open>syncWithServer\<close> or the import changes
  the store, the item \<^verbatim>\<open>quotes\<close> of \<^verbatim>\<open>localStorage\<close> holds the in-memory list
  afterwards; and the synchronisation writes that item only when it added at least one
  quote.
\<close>

theorem store_persisted_after_mutation:
  "(quotes (fst (addQuote s)) \<noteq> quotes s \<or> ls_quotes (fst (addQuote s)) \<noteq> ls_quotes s \<longrightarrow>
      ls_quotes (fst (addQuote s)) = Some (quotes (fst (addQuote s))))
   \<and> (quotes (syncWithServer r s) \<noteq> quotes s \<or> ls_quotes (syncWithServer r s) \<noteq> ls_quotes s \<longrightarrow>
      ls_quotes (syncWithServer r s) = Some (quotes (syncWithServer r s)))
   \<and> (quotes (importFromJsonFile parsed s) \<noteq> quotes s
        \<or> ls_quotes (importFromJsonFile parsed s) \<noteq> ls_quotes s \<longrightarrow>
      ls_quotes (importFromJsonFile parsed s) = Some (quotes (importFromJsonFile parsed s)))
   \<and> (ls_quotes (syncWithServer r s) \<noteq> ls_quotes s \<longrightarrow>
      (\<exists>added. added \<noteq> [] \<and> ls_quotes (syncWithServer r s) = Some (storedQuotes s @ added)))"
proof (intro conjI)
  show "quotes (fst (addQuote s)) \<noteq> quotes s \<or> ls_quotes (fst (addQuote s)) \<noteq> ls_quotes s \<longrightarrow>
      ls_quotes (fst (addQuote s)) = Some (quotes (fst (addQuote s)))"
    using addQuote_invalid [of s] addQuote_valid [of s]
    by (cases "trim (newQuoteText s) = [] \<or> trim (newQuoteCategory s) = []")
      (auto simp: showMessage_def)
  show "quotes (syncWithServer r s) \<noteq> quotes s \<or> ls_quotes (syncWithServer r s) \<noteq> ls_quotes s \<longrightarrow>
      ls_quotes (syncWithServer r s) = Some (quotes (syncWithServer r s))"
    using syncWithServer_cases [of r s] by auto
  show "quotes (importFromJsonFile parsed s) \<noteq> quotes s
        \<or> ls_quotes (importFromJsonFile parsed s) \<noteq> ls_quotes s \<longrightarrow>
      ls_quotes (importFromJsonFile parsed s) = Some (quotes (importFromJsonFile parsed s))"
    using importFromJsonFile_store [of parsed s]
    by (auto split: sum.splits json.splits)
  show "ls_quotes (syncWithServer r s) \<noteq> ls_quotes s \<longrightarrow>
      (\<exists>added. added \<noteq> [] \<and> ls_quotes (syncWithServer r s) = Some (storedQuotes s @ added))"
    using syncWithServer_cases [of r s]
  proof (elim disjE exE conjE)
    assume "ls_quotes (syncWithServer r s) = ls_quotes s"
    then show ?thesis by simp
  next
    fix cs lq
    assume m: "mergeServer (storedQuotes s, False) cs = Inr (lq, True)"
      and q: "ls_quotes (syncWithServer r s) = Some lq"
    from mergeServer_added [OF m] q show ?thesis by auto
  qed
qed

text \<open>An instance with an add, a synchronisation and an import that each change the store.\<close>

theorem store_persisted_after_mutation_witness:
  "quotes (fst (addQuote ((load None None)\<lparr>newQuoteText := ''  Test quote '', newQuoteCategory := ''Test''\<rparr>)))
     \<noteq> quotes ((load None None)\<lparr>newQuoteText := ''  Test quote '', newQuoteCategory := ''Test''\<rparr>)
   \<and> ls_quotes (fst (addQuote ((load None None)\<lparr>newQuoteText := ''  Test quote '', newQuoteCategory := ''Test''\<rparr>)))
     = Some (quotes (fst (addQuote ((load None None)\<lparr>newQuoteText := ''  Test quote '', newQuoteCategory := ''Test''\<rparr>))))
   \<and> ls_quotes (syncWithServer sixPosts (load None None)) \<noteq> ls_quotes (load None None)
   \<and> ls_quotes (syncWithServer sixPosts (load None None))
     = Some (quotes (syncWithServer sixPosts (load None None)))
   \<and> (\<exists>added. added \<noteq> []
        \<and> ls_quotes (syncWithServer sixPosts (load None None))
          = Some (storedQuotes (load None None) @ added))
   \<and> quotes (importFromJsonFile (Inr (JArr [quote ''A'' ''x''])) (load None None))
     \<noteq> quotes (load None None)
   \<and> ls_quotes (importFromJsonFile (Inr (JArr [quote ''A'' ''x''])) (load None None))
     = Some (quotes (importFromJsonFile (Inr (JArr [quote ''A'' ''x''])) (load None None)))"
proof -
  let ?a = "(load None None)\<lparr>newQuoteText := ''  Test quote '', newQuoteCategory := ''Test''\<rparr>"
  let ?s = "load None None"
  let ?p = "Inr (JArr [quote ''A'' ''x''])"
  have h1: "quotes (fst (addQuote ?a)) \<noteq> quotes ?a"
    using addQuote_valid [of ?a] by (simp add: trim_Test trim_Test_quote load_def)
  have h2: "ls_quotes (syncWithServer sixPosts ?s) \<noteq> ls_quotes ?s"
    by (simp add: sixPosts_def model_defs)
  have h3: "quotes (importFromJsonFile ?p ?s) \<noteq> quotes ?s"
    using importFromJsonFile_store [of ?p ?s] by simp
  from store_persisted_after_mutation [of ?a sixPosts ?p] h1
  have c1: "ls_quotes (fst (addQuote ?a)) = Some (quotes (fst (addQuote ?a)))" by blast
  from store_persisted_after_mutation [of ?s sixPosts ?p] h2 h3
  have c2: "ls_quotes (syncWithServer sixPosts ?s) = Some (quotes (syncWithServer sixPosts ?s))"
    and c3: "\<exists>added. added \<noteq> [] \<and> ls_quotes (syncWithServer sixPosts ?s) = Some (storedQuotes ?s @ added)"
    and c4: "ls_quotes (importFromJsonFile ?p ?s) = Some (quotes (importFromJsonFile ?p ?s))"
    by blast+
  from h1 h2 h3 c1 c2 c3 c4 show ?thesis by blast
qed

section \<open>Export, then import\<close>

text \<open>
  C5. The file \<^verbatim>\<open>exportQuotes\<close> writes, imported by \<^verbatim>\<open>script.js\<close> into an empty
  store, gives a store with the same set of records: it is even the same list, and it is
  persisted.
\<close>

theorem export_import_roundtrip:
  "quotes s0 = [] \<Longrightarrow>
   set (quotes (importFromJsonFile (Inr (exportQuotes s)) s0)) = set (quotes s)
   \<and> quotes (importFromJsonFile (Inr (exportQuotes s)) s0) = quotes s
   \<and> ls_quotes (importFromJsonFile (Inr (exportQuotes s)) s0) = Some (quotes s)"
  using importFromJsonFile_store [of "Inr (exportQuotes s)" s0]
  by (simp add: exportQuotes_def)

text \<open>An instance: the default quotes, exported and imported into an empty store.\<close>

theorem export_import_roundtrip_witness:
  "quotes (load (Some []) None) = []
   \<and> quotes (importFromJsonFile (Inr (exportQuotes (load None None))) (load (Some []) None))
     = defaultQuotes
   \<and> ls_quotes (importFromJsonFile (Inr (exportQuotes (load None None))) (load (Some []) None))
     = Some defaultQuotes"
proof -
  have h: "quotes (load (Some []) None) = []" by (simp add: load_def)
  from export_import_roundtrip [OF h, of "load None None"] h show ?thesis
    by (simp add: load_def)
qed

section \<open>The scenario of the added quote\<close>

text \<open>
  C6. The store holds the one quote ("The best way...", inspiration). After
  \<^verbatim>\<open>addQuote\<close> with the text "Test quote" and the category "Test", the view of the
  category \<^verbatim>\<open>test\<close> is exactly one quote, with the text "Test quote" and the category
  \<^verbatim>\<open>test\<close>; the view of \<^verbatim>\<open>all\<close> holds both quotes.
\<close>

theorem add_then_filter_by_category:
  assumes "quotes s = [quote ''The best way...'' ''inspiration'']"
    and "newQuoteText s = ''Test quote''" and "newQuoteCategory s = ''Test''"
  shows "filteredQuotes (quotes (fst (addQuote s))) ''test'' = Inr [quote ''Test quote'' ''test'']
    \<and> filteredQuotes (quotes (fst (addQuote s))) ''all''
        = Inr [quote ''The best way...'' ''inspiration'', quote ''Test quote'' ''test'']"
proof -
  have t: "trim ''Test quote'' = ''Test quote''"
    by (simp add: trim_def isWhiteSpace_def)
  from assms addQuote_valid [of s]
  have "quotes (fst (addQuote s))
          = [quote ''The best way...'' ''inspiration'', quote ''Test quote'' ''test'']"
    by (simp add: t trim_Test toLowerCase_Test)
  then show ?thesis
    by (simp add: filteredQuotes_def quote_def)
qed

text \<open>The scenario on a page whose stored quotes are that one quote.\<close>

theorem add_then_filter_by_category_witness:
  "quotes ((load (Some [quote ''The best way...'' ''inspiration'']) None)
      \<lparr>newQuoteText := ''Test quote'', newQuoteCategory := ''Test''\<rparr>)
     = [quote ''The best way...'' ''inspiration'']
   \<and> filteredQuotes (quotes (fst (addQuote ((load (Some [quote ''The best way...'' ''inspiration'']) None)
      \<lparr>newQuoteText := ''Test quote'', newQuoteCategory := ''Test''\<rparr>)))) ''test''
     = Inr [JObj [(''text'', JStr ''Test quote''), (''category'', JStr ''test'')]]"
proof -
  let ?s = "(load (Some [quote ''The best way...'' ''inspiration'']) None)
      \<lparr>newQuoteText := ''Test quote'', newQuoteCategory := ''Test''\<rparr>"
  have h: "quotes ?s = [quote ''The best way...'' ''inspiration'']"
    "newQuoteText ?s = ''Test quote''" "newQuoteCategory ?s = ''Test''"
    by (simp_all add: load_def)
  from add_then_filter_by_category [OF h] h(1) show ?thesis
    by (simp add: quote_def)
qed

section \<open>The random display\<close>

lemma isDouble_0: "isDouble 0"
  unfolding isDouble_def by (rule exI [of _ 0], rule exI [of _ 0]) simp

lemma isDouble_div: "\<bar>m\<bar> < 2 ^ 53 \<Longrightarrow> e \<le> 1074 \<Longrightarrow> isDouble (of_int m / 2 ^ e)"
  unfolding isDouble_def by blast

lemma double_below_one:
  assumes d: "isDouble r" and r: "r < 1"
  shows "r \<le> 1 - 1 / 2 ^ 53"
proof -
  from d obtain m :: int and e :: nat where m: "\<bar>m\<bar> < 2 ^ 53"
    and c: "r = of_int m * 2 ^ e \<or> r = of_int m / 2 ^ e"
    unfolding isDouble_def by blast
  have small: "(1::rat) / 2 \<le> 1 - 1 / 2 ^ 53" by simp
  show ?thesis
  proof (cases "m \<le> 0")
    case True
    then have "(of_int m :: rat) \<le> 0" by simp
    then have "(of_int m :: rat) * 2 ^ e \<le> 0" "(of_int m :: rat) / 2 ^ e \<le> 0"
      by (simp_all add: mult_le_0_iff divide_le_0_iff)
    with c have "r \<le> 0" by auto
    with small show ?thesis by linarith
  next
    case False
    then have m1: "1 \<le> m" by simp
    from c show ?thesis
    proof
      assume "r = of_int m * 2 ^ e"
      moreover have "(1::rat) \<le> of_int m" using m1 by simp
      moreover have "(1::rat) \<le> 2 ^ e" by simp
      ultimately have "1 \<le> r"
        using mult_mono [of 1 "of_int m :: rat" 1 "2 ^ e"] by simp
      with r show ?thesis by simp
    next
      assume eq: "r = of_int m / 2 ^ e"
      with r have "(of_int m :: rat) < 2 ^ e" by (simp add: divide_less_eq)
      then have "(of_int m :: rat) < of_int (2 ^ e)" by simp
      then have me: "m < 2 ^ e" by (simp only: of_int_less_iff)
      show ?thesis
      proof (cases "e \<le> 53")
        case True
        from me have "m \<le> 2 ^ e - 1" by simp
        then have "(of_int m :: rat) \<le> of_int (2 ^ e - 1)" by (simp only: of_int_le_iff)
        then have "(of_int m :: rat) \<le> 2 ^ e - 1" by simp
        then have "r \<le> (2 ^ e - 1) / 2 ^ e" using eq by (simp add: divide_right_mono)
        also have "\<dots> = 1 - 1 / 2 ^ e" by (simp add: diff_divide_distrib)
        also have "\<dots> \<le> 1 - 1 / 2 ^ 53"
        proof -
          from True have "(2::rat) ^ e \<le> 2 ^ 53" by (intro power_increasing) simp_all
          then have "(1::rat) / 2 ^ 53 \<le> 1 / 2 ^ e" by (intro divide_left_mono) simp_all
          then show ?thesis by linarith
        qed
        finally show ?thesis .
      next
        case False
        then have "54 \<le> e" by simp
        then have p: "(2::rat) ^ 54 \<le> 2 ^ e" by (intro power_increasing) simp_all
        from m have "m < 2 ^ 53" by simp
        then have "(of_int m :: rat) < of_int (2 ^ 53)" by (simp only: of_int_less_iff)
        then have "(of_int m :: rat) < 2 ^ 53" by simp
        then have "2 * (of_int m :: rat) < 2 ^ 54" by simp
        with p have "2 * (of_int m :: rat) < 2 ^ e" by linarith
        then have "r < 1 / 2" using eq by (simp add: divide_less_eq)
        with small show ?thesis by linarith
      qed
    qed
  qed
qed

lemma double_below_nat:
  fixes n :: nat
  assumes n: "0 < n" "n < 2 ^ 53"
  shows "\<exists>q. isDouble q \<and> q < of_nat n
           \<and> (\<forall>x. x \<le> of_nat n * (1 - 1 / 2 ^ 53) \<longrightarrow> \<bar>x - q\<bar> < of_nat n - x)"
proof -
  from n(1) have "1 \<le> n" by simp
  from ex_power_ivl1 [of 2 n, OF _ this] obtain k where k: "2 ^ k \<le> n" "n < 2 ^ (k + 1)"
    by auto
  from k(1) n(2) have "(2::nat) ^ k < 2 ^ 53" by simp
  then have k53: "k < 53" by (simp only: power_strict_increasing_iff)
  let ?N = "of_nat n :: rat"
  show ?thesis
  proof (cases "n = 2 ^ k")
    case True
    define q :: rat where "q = ?N - ?N / 2 ^ 53"
    have pw: "(2::rat) ^ 53 = 2 ^ k * 2 ^ (53 - k)"
      using k53 by (simp flip: power_add)
    have N: "?N = 2 ^ k" using True by simp
    have "of_int (2 ^ 53 - 1) / 2 ^ (53 - k) = ((2::rat) ^ 53 - 1) / 2 ^ (53 - k)" by simp
    also have "\<dots> = 2 ^ 53 / 2 ^ (53 - k) - 1 / 2 ^ (53 - k)"
      by (simp only: diff_divide_distrib)
    also have "(2::rat) ^ 53 / 2 ^ (53 - k) = 2 ^ k"
      by (simp only: pw) simp
    also have "(1::rat) / 2 ^ (53 - k) = 2 ^ k / 2 ^ 53"
      by (simp only: pw) simp
    finally have qe: "of_int (2 ^ 53 - 1) / 2 ^ (53 - k) = q"
      by (simp only: q_def N)
    have "isDouble (of_int (2 ^ 53 - 1) / 2 ^ (53 - k))"
      by (rule isDouble_div) simp_all
    then have d: "isDouble q" by (simp only: qe)
    from n(1) have "0 < ?N / 2 ^ 53" by simp
    then have lt: "q < ?N" unfolding q_def by linarith
    have "\<forall>x. x \<le> ?N * (1 - 1 / 2 ^ 53) \<longrightarrow> \<bar>x - q\<bar> < ?N - x"
    proof (intro allI impI)
      fix x :: rat
      assume "x \<le> ?N * (1 - 1 / 2 ^ 53)"
      then have "x \<le> q" by (simp add: q_def algebra_simps)
      with lt show "\<bar>x - q\<bar> < ?N - x" by linarith
    qed
    with d lt show ?thesis by blast
  next
    case False
    with k(1) have gt: "2 ^ k < n" by simp
    define d :: rat where "d = 1 / 2 ^ (52 - k)"
    define q :: rat where "q = ?N - d"
    let ?m = "int n * 2 ^ (52 - k) - 1"
    have pw: "(2::nat) ^ 53 = 2 ^ (k + 1) * 2 ^ (52 - k)"
      using k53 by (simp flip: power_add)
    have "n * 2 ^ (52 - k) < 2 ^ (k + 1) * 2 ^ (52 - k)"
      using k(2) by simp
    then have "n * 2 ^ (52 - k) < 2 ^ 53" by (simp only: pw)
    then have "int (n * 2 ^ (52 - k)) < int (2 ^ 53)" by (simp only: of_nat_less_iff)
    then have up: "int n * 2 ^ (52 - k) < 2 ^ 53" by simp
    have "(1::int) * 1 \<le> int n * 2 ^ (52 - k)"
      using n(1) by (intro mult_mono) simp_all
    then have low: "1 \<le> int n * 2 ^ (52 - k)" by simp
    have "\<bar>a - 1\<bar> < b" if "1 \<le> a" "a < b" for a b :: int
      using that by linarith
    from this [OF low up] have "\<bar>?m\<bar> < 2 ^ 53" .
    then have "isDouble (of_int ?m / 2 ^ (52 - k))"
      by (rule isDouble_div) simp
    moreover have "of_int ?m / 2 ^ (52 - k) = q"
      by (simp add: q_def d_def diff_divide_distrib)
    ultimately have dq: "isDouble q" by (simp only:)
    have dpos: "0 < d" by (simp add: d_def)
    have half: "d / 2 < ?N / 2 ^ 53"
    proof -
      have pr: "(2::rat) ^ 53 = 2 ^ k * (2 * 2 ^ (52 - k))"
        using k53 by (simp flip: power_add power_Suc)
      have "(2::rat) ^ k < ?N"
        using gt by (metis of_nat_less_iff of_nat_numeral of_nat_power)
      then have l: "(2::rat) ^ k / 2 ^ 53 < ?N / 2 ^ 53"
        by (rule divide_strict_right_mono) simp
      have e: "(2::rat) ^ k / 2 ^ 53 = d / 2"
        by (simp only: pr d_def) simp
      from l show ?thesis by (simp only: e)
    qed
    have lt: "q < ?N" using dpos unfolding q_def by linarith
    have "\<forall>x. x \<le> ?N * (1 - 1 / 2 ^ 53) \<longrightarrow> \<bar>x - q\<bar> < ?N - x"
    proof (intro allI impI)
      fix x :: rat
      assume "x \<le> ?N * (1 - 1 / 2 ^ 53)"
      then have x: "x \<le> ?N - ?N / 2 ^ 53" by (simp add: algebra_simps)
      with half dpos show "\<bar>x - q\<bar> < ?N - x"
        unfolding q_def by linarith
    qed
    with dq lt show ?thesis by blast
  qed
qed

lemma nearest_below_nat:
  fixes n :: nat
  assumes r: "isDouble r" "0 \<le> r" "r < 1"
    and n: "0 < n" "n < 2 ^ 53"
    and p: "nearestDouble p (r * of_nat n)"
  shows "0 \<le> p \<and> p < of_nat n"
proof -
  let ?x = "r * of_nat n"
  from double_below_one [OF r(1,3)] have "?x \<le> (1 - 1 / 2 ^ 53) * of_nat n"
    by (intro mult_right_mono) simp_all
  then have x: "?x \<le> of_nat n * (1 - 1 / 2 ^ 53)" by (simp add: mult.commute)
  from r(2) have x0: "0 \<le> ?x" by simp
  from double_below_nat [OF n] obtain q where q: "isDouble q" "q < of_nat n"
    "\<forall>x. x \<le> of_nat n * (1 - 1 / 2 ^ 53) \<longrightarrow> \<bar>x - q\<bar> < of_nat n - x" by blast
  from q(3) x have c: "\<bar>?x - q\<bar> < of_nat n - ?x" by blast
  from p q(1) have "\<bar>?x - p\<bar> \<le> \<bar>?x - q\<bar>" unfolding nearestDouble_def by blast
  with c have "\<bar>?x - p\<bar> < of_nat n - ?x" by linarith
  then have hi: "p < of_nat n" by linarith
  from p isDouble_0 have "\<bar>?x - p\<bar> \<le> \<bar>?x - 0\<bar>" unfolding nearestDouble_def by blast
  with x0 have lo: "0 \<le> p" by linarith
  from lo hi show ?thesis by simp
qed

lemma randomIndex_range:
  assumes "isDouble r" "0 \<le> r" "r < 1" "0 < n" "n < 2 ^ 53"
    and "nearestDouble (fmul r (of_nat n)) (r * of_nat n)"
  shows "0 \<le> randomIndex fmul r n \<and> randomIndex fmul r n < int n"
proof -
  from nearest_below_nat [OF assms]
  have p: "0 \<le> fmul r (of_nat n)" "fmul r (of_nat n) < of_int (int n)" by simp_all
  from p(2) have "\<lfloor>fmul r (of_nat n)\<rfloor> < int n" by (simp only: floor_less_iff)
  with p(1) show ?thesis by (simp add: randomIndex_def)
qed

text \<open>
  C8. When the filtered view is empty, \<^verbatim>\<open>displayRandomQuote\<close> shows the message that no
  quotes are available and selects nothing. When the view has \<open>n > 0\<close> quotes (an array
  has fewer than \<open>2 ^ 53\<close> elements), and \<^verbatim>\<open>Math.random()\<close> returned a double \<open>r\<close> with
  \<open>0 \<le> r < 1\<close> whose product with \<open>n\<close> was rounded to a nearest double, the index lies in
  \<open>[0, n)\<close>, the read at that index is inside the array, and the quote shown and recorded
  as last viewed is that element of the view.
\<close>

theorem displayRandomQuote_safe:
  assumes "filteredQuotes (quotes s) (sel_value (categorySelect s)) = Inr view"
  shows "(view = [] \<longrightarrow>
            displayRandomQuote fmul r s = (s\<lparr>quoteDisplay := NoQuotesAvailable\<rparr>, None))
    \<and> (view \<noteq> [] \<and> length view < 2 ^ 53 \<and> isDouble r \<and> 0 \<le> r \<and> r < 1
          \<and> nearestDouble (fmul r (of_nat (length view))) (r * of_nat (length view)) \<longrightarrow>
          0 \<le> randomIndex fmul r (length view)
          \<and> randomIndex fmul r (length view) < int (length view)
          \<and> at_index view (randomIndex fmul r (length view))
              = Some (view ! nat (randomIndex fmul r (length view)))
          \<and> view ! nat (randomIndex fmul r (length view)) \<in> set view
          \<and> (view ! nat (randomIndex fmul r (length view)) \<noteq> JNull \<longrightarrow>
               displayRandomQuote fmul r s
                 = (s\<lparr>quoteDisplay := RandomQuote (view ! nat (randomIndex fmul r (length view))),
                      ss_lastQuote := Some (view ! nat (randomIndex fmul r (length view)))\<rparr>,
                    None)))"
proof (intro conjI impI; (elim conjE)?)
  assume "view = []"
  with assms show "displayRandomQuote fmul r s = (s\<lparr>quoteDisplay := NoQuotesAvailable\<rparr>, None)"
    by (simp add: displayRandomQuote_def)
next
  assume v: "view \<noteq> []" and n: "length view < 2 ^ 53"
    and r: "isDouble r" "0 \<le> r" "r < 1"
    and p: "nearestDouble (fmul r (of_nat (length view))) (r * of_nat (length view))"
  from v have "0 < length view" by simp
  from randomIndex_range [where fmul = fmul, OF r this n p]
  show i: "0 \<le> randomIndex fmul r (length view)"
    "randomIndex fmul r (length view) < int (length view)"
    by simp_all
  then show a: "at_index view (randomIndex fmul r (length view))
              = Some (view ! nat (randomIndex fmul r (length view)))"
    by (simp add: at_index_def)
  from i have "nat (randomIndex fmul r (length view)) < length view" by simp
  then show "view ! nat (randomIndex fmul r (length view)) \<in> set view" by simp
  assume "view ! nat (randomIndex fmul r (length view)) \<noteq> JNull"
  with v a assms show "displayRandomQuote fmul r s
                 = (s\<lparr>quoteDisplay := RandomQuote (view ! nat (randomIndex fmul r (length view))),
                      ss_lastQuote := Some (view ! nat (randomIndex fmul r (length view)))\<rparr>,
                    None)"
    by (cases "view ! nat (randomIndex fmul r (length view))")
      (simp_all add: displayRandomQuote_def)
qed

text \<open>
  An instance of each case: with \<open>r = 1/2\<close> and the three default quotes the product
  \<open>3/2\<close> is a double, and the second quote is shown; with an empty store the message is
  shown.
\<close>

theorem displayRandomQuote_safe_witness:
  "filteredQuotes (quotes (fst (populateCategories (load None None))))
        (sel_value (categorySelect (fst (populateCategories (load None None))))) = Inr defaultQuotes
   \<and> isDouble (1 / 2)
   \<and> nearestDouble ((1 / 2) * of_nat (length defaultQuotes)) ((1 / 2) * of_nat (length defaultQuotes))
   \<and> randomIndex (\<lambda>a b. a * b) (1 / 2) (length defaultQuotes) = 1
   \<and> displayRandomQuote (\<lambda>a b. a * b) (1 / 2) (fst (populateCategories (load None None)))
       = ((fst (populateCategories (load None None)))
            \<lparr>quoteDisplay := RandomQuote (defaultQuotes ! 1),
              ss_lastQuote := Some (defaultQuotes ! 1)\<rparr>, None)
   \<and> filteredQuotes (quotes (fst (populateCategories (load (Some []) None))))
        (sel_value (categorySelect (fst (populateCategories (load (Some []) None))))) = Inr []
   \<and> displayRandomQuote (\<lambda>a b. a * b) (1 / 2) (fst (populateCategories (load (Some []) None)))
       = ((fst (populateCategories (load (Some []) None)))\<lparr>quoteDisplay := NoQuotesAvailable\<rparr>, None)"
proof -
  let ?s = "fst (populateCategories (load None None))"
  let ?e = "fst (populateCategories (load (Some []) None))"
  let ?f = "\<lambda>a b :: rat. a * b"
  have v: "filteredQuotes (quotes ?s) (sel_value (categorySelect ?s)) = Inr defaultQuotes"
    by (simp add: model_defs)
  have len: "length defaultQuotes = 3" by (simp add: defaultQuotes_def)
  have "isDouble (of_int 1 / 2 ^ 1)" by (rule isDouble_div) simp_all
  then have d: "isDouble (1 / 2)" by simp
  have "isDouble (of_int 3 / 2 ^ 1)" by (rule isDouble_div) simp_all
  then have "isDouble (3 / 2)" by simp
  then have "nearestDouble (3 / 2) (3 / 2)" by (simp add: nearestDouble_def)
  then have p: "nearestDouble ((1 / 2) * of_nat (length defaultQuotes))
      ((1 / 2) * of_nat (length defaultQuotes))"
    by (simp add: len)
  have "\<lfloor>(3 / 2 :: rat)\<rfloor> = 1" by (simp add: floor_eq_iff)
  then have i: "randomIndex ?f (1 / 2) (length defaultQuotes) = 1"
    by (simp add: randomIndex_def len)
  have n: "defaultQuotes \<noteq> []" "defaultQuotes ! 1 \<noteq> JNull" "length defaultQuotes < 2 ^ 53"
    by (simp_all add: defaultQuotes_def quote_def)
  have w: "filteredQuotes (quotes ?e) (sel_value (categorySelect ?e)) = Inr []"
    by (simp add: model_defs)
  from displayRandomQuote_safe [OF v, of ?f "1 / 2"] n d p i
  have c1: "displayRandomQuote ?f (1 / 2) ?s
       = (?s\<lparr>quoteDisplay := RandomQuote (defaultQuotes ! 1),
              ss_lastQuote := Some (defaultQuotes ! 1)\<rparr>, None)"
    by simp
  from displayRandomQuote_safe [OF w, of ?f "1 / 2"]
  have c2: "displayRandomQuote ?f (1 / 2) ?e = (?e\<lparr>quoteDisplay := NoQuotesAvailable\<rparr>, None)"
    by simp
  from v d p i w c1 c2 show ?thesis by blast
qed

section \<open>Restoring the filter\<close>

text \<open>
  C3 fails in \<^verbatim>\<open>script.js\<close>. On a first visit with the default quotes, the saved
  category \<^verbatim>\<open>philosophy\<close> names none of the options. \<^verbatim>\<open>restoreFilter\<close> assigns it to
  the drop-down all the same, which leaves no option selected: the filter reads as the
  empty string, not as \<^verbatim>\<open>all\<close>, the empty string is persisted, and the list shows the
  message for an empty category.
\<close>

theorem restoreFilter_stale_category:
  "sel_options (categoryFilter (fst (populateCategories (load None (Some ''philosophy'')))))
     = [''all'', ''inspiration'', ''motivation'', ''success'']
   \<and> sel_value (categoryFilter
        (fst (andThen populateCategories restoreFilter (load None (Some ''philosophy''))))) = []
   \<and> ls_selectedCategory
        (fst (andThen populateCategories restoreFilter (load None (Some ''philosophy'')))) = Some []
   \<and> quoteDisplay
        (fst (andThen populateCategories restoreFilter (load None (Some ''philosophy''))))
       = NoQuotesFound"
  by (simp add: model_defs)

text \<open>
  \<^verbatim>\<open>part_002\<close> checks that an option has the saved value before it assigns
  ("Ensure the option exists before setting the value"), so there the filter stays
  \<^verbatim>\<open>all\<close>, the value \<^verbatim>\<open>populateCategories\<close> leaves.
\<close>

lemma restoreFilter2_example:
  "sel_value (categoryFilter
        (fst (andThen populateCategories2 restoreFilter2 (load None (Some ''philosophy'')))))
     = ''all''"
  by code_simp

lemma fold_appendOption_value: "sel_value (fold appendOption cs sel) = sel_value sel"
  by (induction cs arbitrary: sel) (simp_all add: appendOption_def)

lemma populateCategories2_value:
  "populateCategories2 s = (s', None) \<Longrightarrow> sel_value (categoryFilter s') = ''all''"
  by (auto simp: populateCategories2_def Let_def fold_appendOption_value allOption_def
      split: sum.splits)

lemma restoreFilter2_falls_back:
  assumes "sel_value (categoryFilter s) = ''all''"
    and "savedCategory s \<notin> set (sel_options (categoryFilter s))"
  shows "sel_value (categoryFilter (fst (restoreFilter2 s))) = ''all''
    \<and> ls_selectedCategory (fst (restoreFilter2 s)) = Some ''all''"
  using assms
  by (simp add: restoreFilter2_def filterQuotes2_def filteredQuotes_def Let_def)

section \<open>Import\<close>

text \<open>
  C2 fails in \<^verbatim>\<open>script.js\<close>, whose import pushes every element of the array. Into a
  store that holds (A, x), the file with (A, x) twice and the object
  \<^verbatim>\<open>{"not": "valid"}\<close> adds all three elements, persists them, and then reports a
  failed import, because the refresh of the drop-downs throws on the element without a
  category.
\<close>

theorem importFromJsonFile_keeps_everything:
  "quotes (importFromJsonFile
      (Inr (JArr [quote ''A'' ''x'', quote ''A'' ''x'', JObj [(''not'', JStr ''valid'')]]))
      (load (Some [quote ''A'' ''x'']) None))
     = [quote ''A'' ''x'', quote ''A'' ''x'', quote ''A'' ''x'', JObj [(''not'', JStr ''valid'')]]
   \<and> ls_quotes (importFromJsonFile
      (Inr (JArr [quote ''A'' ''x'', quote ''A'' ''x'', JObj [(''not'', JStr ''valid'')]]))
      (load (Some [quote ''A'' ''x'']) None))
     = Some [quote ''A'' ''x'', quote ''A'' ''x'', quote ''A'' ''x'', JObj [(''not'', JStr ''valid'')]]
   \<and> messages (importFromJsonFile
      (Inr (JArr [quote ''A'' ''x'', quote ''A'' ''x'', JObj [(''not'', JStr ''valid'')]]))
      (load (Some [quote ''A'' ''x'']) None))
     = [ImportFailed]"
  by (simp add: model_defs)

text \<open>
  \<^verbatim>\<open>part_002\<close> adds nothing from that file. Its import refuses a value that is not an
  array, skips an element without text or category, and pushes an element only when no
  quote has the same text and category.
\<close>

lemma importFromJsonFile2_example:
  "quotes (importFromJsonFile2
      (Some (Inr (JArr [quote ''A'' ''x'', quote ''A'' ''x'', JObj [(''not'', JStr ''valid'')]])))
      (load (Some [quote ''A'' ''x'']) None))
     = [quote ''A'' ''x'']
   \<and> messages (importFromJsonFile2
      (Some (Inr (JArr [quote ''A'' ''x'', quote ''A'' ''x'', JObj [(''not'', JStr ''valid'')]])))
      (load (Some [quote ''A'' ''x'']) None))
     = [NoNewImported]"
  by (simp add: model_defs)

lemma someTextCategory_total:
  "JNull \<notin> set qs \<Longrightarrow> impQuote \<noteq> JNull \<Longrightarrow> \<exists>b. someTextCategory qs impQuote = Inr b"
proof (induction qs)
  case Nil
  show ?case by (rule exI [of _ False]) simp
next
  case (Cons q qs)
  then have "q \<noteq> JNull" by auto
  with getProp_not_null obtain qt qc where "getProp q ''text'' = Inr qt" "getProp q ''category'' = Inr qc"
    by blast
  moreover from Cons.prems getProp_not_null obtain it ic where
    "getProp impQuote ''text'' = Inr it" "getProp impQuote ''category'' = Inr ic"
    by blast
  ultimately show ?case using Cons by auto
qed

lemma importStep_skips_incomplete:
  assumes "JNull \<notin> set qs" "impQuote \<noteq> JNull"
    and "getProp impQuote ''text'' = Inr None \<or> getProp impQuote ''category'' = Inr None"
  shows "importStep qs impQuote = Inr None"
proof -
  from someTextCategory_total [OF assms(1,2)] obtain b where "someTextCategory qs impQuote = Inr b"
    by blast
  moreover from assms(2) getProp_not_null obtain it where "getProp impQuote ''text'' = Inr it"
    by blast
  ultimately show ?thesis using assms(3)
    by (auto simp: importStep_def split: option.splits)
qed

lemma importStep_pushes_new_only:
  "importStep qs impQuote = Inr (Some q) \<Longrightarrow> someTextCategory qs impQuote = Inr False"
  by (auto simp: importStep_def split: sum.splits if_splits option.splits json.splits)

lemma importFromJsonFile2_not_array:
  "\<forall>xs. v \<noteq> JArr xs \<Longrightarrow>
   importFromJsonFile2 (Some (Inr v)) s = showMessage (ImportFailedWith InvalidFileFormat) s"
  by (cases v) (simp_all add: importFromJsonFile2_def)

text \<open>
  Two inputs on which the import of \<^verbatim>\<open>part_002\<close> itself falls short: the duplicate check
  compares the category as it is in the file, before it is put in lower case, so (A, X) is
  added to a store that holds (A, x), as a second (A, x); and an element \<^verbatim>\<open>null\<close> ends
  the batch with a TypeError.
\<close>

lemma importFromJsonFile2_case_example:
  "quotes (importFromJsonFile2 (Some (Inr (JArr [quote ''A'' ''X''])))
      (load (Some [quote ''A'' ''x'']) None))
     = [quote ''A'' ''x'', quote ''A'' ''x'']"
  by code_simp

lemma importFromJsonFile2_null_example:
  "quotes (importFromJsonFile2 (Some (Inr (JArr [JNull, quote ''B'' ''y''])))
      (load (Some [quote ''A'' ''x'']) None))
     = [quote ''A'' ''x'']
   \<and> messages (importFromJsonFile2 (Some (Inr (JArr [JNull, quote ''B'' ''y''])))
      (load (Some [quote ''A'' ''x'']) None))
     = [ImportFailedWith TypeError]"
  by (simp add: model_defs)

end
